theory Spec2Isabelle
  imports Main
begin

section \<open>Cloudflare IP checker: data model\<close>

text \<open>
  The program (\<^verbatim>\<open>index.ts\<close>) is a polling loop around two HTTP services. The
  embedding keeps the functions of the source and makes their effects explicit:
  every \<^verbatim>\<open>fetch\<close> is recorded with its answer, every console call is recorded,
  a \<^verbatim>\<open>throw\<close> is the \<open>Inl\<close> of a sum and \<^verbatim>\<open>process.exit\<close> is an outcome.
\<close>

text \<open>A thrown \<^verbatim>\<open>Error\<close> object: its name and its message.\<close>

datatype js_error = JsError (err_name: string) (message: string)

definition new_Error :: "string \<Rightarrow> js_error" where
  "new_Error m = JsError ''Error'' m"

text \<open>\<^verbatim>\<open>`${error}`\<close> calls \<^verbatim>\<open>Error.prototype.toString\<close>.\<close>

definition error_toString :: "js_error \<Rightarrow> string" where
  "error_toString e =
     (if err_name e = [] then message e
      else if message e = [] then err_name e
      else err_name e @ '': '' @ message e)"

text \<open>
  A JavaScript number as far as the program uses one: \<^verbatim>\<open>parseInt\<close> gives a double
  with an integer value, an infinity or \<^verbatim>\<open>NaN\<close>, and the interval is only multiplied
  by constants. \<open>Num n\<close> is the double with the value \<open>n\<close>; the negative zero is not
  told from zero (the program only prints the number and hands it to a timer).
\<close>

datatype js_number = NaN | Num int | Infinity | NegInfinity

fun bits :: "nat \<Rightarrow> nat" where
  "bits n = (if n = 0 then 0 else Suc (bits (n div 2)))"

declare bits.simps [simp del]

text \<open>
  The double nearest to an integer: exact below \<open>2^53\<close>, else rounded to 53 binary
  digits, ties to even, and an infinity from \<open>2^1024\<close> on.
\<close>

definition to_double :: "int \<Rightarrow> js_number" where
  "to_double n =
     (let a = nat \<bar>n\<bar>
      in if a < 2 ^ 53 then Num n
         else (let e = bits a - 53;
                   q = a div 2 ^ e;
                   r = a mod 2 ^ e;
                   q' = (if 2 ^ e < 2 * r \<or> (2 * r = 2 ^ e \<and> odd q) then q + 1 else q);
                   m = q' * 2 ^ e
               in if 2 ^ 1024 \<le> m then (if n < 0 then NegInfinity else Infinity)
                  else Num (if n < 0 then - int m else int m)))"

fun js_sign :: "js_number \<Rightarrow> int" where
  "js_sign NaN = 0"
| "js_sign (Num n) = sgn n"
| "js_sign Infinity = 1"
| "js_sign NegInfinity = - 1"

text \<open>The product of two doubles: the exact product, rounded.\<close>

fun js_times :: "js_number \<Rightarrow> js_number \<Rightarrow> js_number" where
  "js_times NaN y = NaN"
| "js_times x NaN = NaN"
| "js_times (Num a) (Num b) = to_double (a * b)"
| "js_times x y =
     (if js_sign x * js_sign y = 0 then NaN
      else if 0 < js_sign x * js_sign y then Infinity else NegInfinity)"

record CloudflareConfig =
  apiToken :: string
  zoneId :: string
  allowedRecords :: "string list"
  checkIntervalMinutes :: js_number

text \<open>The field \<^verbatim>\<open>id\<close> of the source is \<open>id'\<close> here (\<open>id\<close> is the identity of HOL).\<close>

record DNSRecord =
  id' :: string
  name :: string
  type :: string
  content :: string
  proxied :: bool
  ttl :: int

text \<open>
  The object given to \<^verbatim>\<open>JSON.stringify\<close> for the body of the PUT, field by field in
  the order of the source.
\<close>

datatype put_body =
  PutBody (body_type: string) (body_name: string) (body_content: string)
          (body_ttl: int) (body_proxied: bool)

record http_request =
  http_method :: string
  url :: string
  headers :: "(string \<times> string) list"
  body :: "put_body option"

text \<open>
  The provider's answers have the shape \<^verbatim>\<open>{ success, result, errors }\<close>; the source
  casts the parsed JSON to that shape without a check, and the model takes the shape
  as given. An element of \<^verbatim>\<open>errors: any[]\<close> is kept as its JSON text.
\<close>

datatype 'a cf_response =
  CfResponse (success: bool) (result: 'a) (errors: "string list")

fun join :: "string \<Rightarrow> string list \<Rightarrow> string" where
  "join sep [] = []"
| "join sep [x] = x"
| "join sep (x # y # ys) = x @ sep @ join sep (y # ys)"

definition JSON_stringify :: "string list \<Rightarrow> string" where
  "JSON_stringify es = ''['' @ join '','' es @ '']''"

text \<open>What came back for a request: a rejected promise, or the parsed body.\<close>

datatype response =
  Failed js_error
| IpJson string
| ListJson "DNSRecord list cf_response"
| RecordJson "DNSRecord cf_response"
| PutJson "unit cf_response"

text \<open>One constructor for each console call of the source, with its arguments.\<close>

datatype log_entry =
  LogStarting
| LogLookingFor "string list"
| LogCurrentIP string
| LogFetching
| LogNoMatch "string list"
| LogFound nat
| LogChecking string string
| LogCurrentDNSIP string
| LogMismatch
| LogUpdated string string
| LogUpToDate
| ErrRecord string js_error
| LogCompleted
| ErrFatal js_error
| LogRunning js_number
| LogPressCtrlC
| LogNextCheck js_number
| LogSeparator
| ErrTokenRequired
| ErrZoneRequired
| ErrRecordsRequired
| ErrRecordsFormat

text \<open>The entries written with \<^verbatim>\<open>console.error\<close>.\<close>

fun is_stderr :: "log_entry \<Rightarrow> bool" where
  "is_stderr (ErrRecord n e) = True"
| "is_stderr (ErrFatal e) = True"
| "is_stderr ErrTokenRequired = True"
| "is_stderr ErrZoneRequired = True"
| "is_stderr ErrRecordsRequired = True"
| "is_stderr ErrRecordsFormat = True"
| "is_stderr _ = False"

text \<open>
  The state of a run: the outside world (the two services, whatever they are), the
  requests issued so far with their answers, the console, and the delays given to
  \<^verbatim>\<open>setTimeout\<close>.
\<close>

record 'w state =
  world :: 'w
  exchanges :: "(http_request \<times> response) list"
  console :: "log_entry list"
  timers :: "js_number list"

text \<open>
  The outside world answers a request and moves on. One handler for each shape of
  answer the source expects; \<open>Inl\<close> is a rejected \<^verbatim>\<open>fetch\<close> or \<^verbatim>\<open>response.json()\<close>.
\<close>

record 'w net =
  fetch_ip :: "http_request \<Rightarrow> 'w \<Rightarrow> (js_error + string) \<times> 'w"
  fetch_list :: "http_request \<Rightarrow> 'w \<Rightarrow> (js_error + DNSRecord list cf_response) \<times> 'w"
  fetch_record :: "http_request \<Rightarrow> 'w \<Rightarrow> (js_error + DNSRecord cf_response) \<times> 'w"
  fetch_put :: "http_request \<Rightarrow> 'w \<Rightarrow> (js_error + unit cf_response) \<times> 'w"

definition perform ::
  "(http_request \<Rightarrow> 'w \<Rightarrow> (js_error + 'a) \<times> 'w) \<Rightarrow> ('a \<Rightarrow> response) \<Rightarrow>
   http_request \<Rightarrow> 'w state \<Rightarrow> (js_error + 'a) \<times> 'w state" where
  "perform h wrap req st =
     (case h req (world st) of (r, w') \<Rightarrow>
        (r, st\<lparr>world := w',
               exchanges := exchanges st @
                 [(req, case r of Inl e \<Rightarrow> Failed e | Inr a \<Rightarrow> wrap a)]\<rparr>))"

definition log :: "log_entry \<Rightarrow> 'w state \<Rightarrow> 'w state" where
  "log l st = st\<lparr>console := console st @ [l]\<rparr>"

section \<open>The requests\<close>

definition auth_headers :: "CloudflareConfig \<Rightarrow> (string \<times> string) list" where
  "auth_headers cfg =
     [(''Authorization'', ''Bearer '' @ apiToken cfg),
      (''Content-Type'', ''application/json'')]"

definition ip_request :: http_request where
  "ip_request =
     \<lparr>http_method = ''GET'', url = ''https://api.ipify.org?format=json'',
      headers = [], body = None\<rparr>"

definition list_request :: "CloudflareConfig \<Rightarrow> http_request" where
  "list_request cfg =
     \<lparr>http_method = ''GET'',
      url = ''https://api.cloudflare.com/client/v4/zones/'' @ zoneId cfg
              @ ''/dns_records?per_page=100'',
      headers = auth_headers cfg, body = None\<rparr>"

definition record_url :: "CloudflareConfig \<Rightarrow> string \<Rightarrow> string" where
  "record_url cfg recordId =
     ''https://api.cloudflare.com/client/v4/zones/'' @ zoneId cfg
       @ ''/dns_records/'' @ recordId"

definition get_request :: "CloudflareConfig \<Rightarrow> string \<Rightarrow> http_request" where
  "get_request cfg recordId =
     \<lparr>http_method = ''GET'', url = record_url cfg recordId,
      headers = auth_headers cfg, body = None\<rparr>"

definition put_request :: "CloudflareConfig \<Rightarrow> string \<Rightarrow> put_body \<Rightarrow> http_request" where
  "put_request cfg recordId b =
     \<lparr>http_method = ''PUT'', url = record_url cfg recordId,
      headers = auth_headers cfg, body = Some b\<rparr>"

section \<open>The operations\<close>

definition getCurrentIP :: "'w net \<Rightarrow> 'w state \<Rightarrow> (js_error + string) \<times> 'w state" where
  "getCurrentIP nt st =
     (case perform (fetch_ip nt) IpJson ip_request st of
        (Inl error, st') \<Rightarrow>
          (Inl (new_Error (''Failed to get current IP: '' @ error_toString error)), st')
      | (Inr ip, st') \<Rightarrow> (Inr ip, st'))"

definition getAllDNSRecords ::
  "CloudflareConfig \<Rightarrow> 'w net \<Rightarrow> 'w state \<Rightarrow> (js_error + DNSRecord list) \<times> 'w state" where
  "getAllDNSRecords cfg nt st =
     (case perform (fetch_list nt) ListJson (list_request cfg) st of
        (Inl e, st') \<Rightarrow> (Inl e, st')
      | (Inr data, st') \<Rightarrow>
          if \<not> success data
          then (Inl (new_Error (''Failed to get DNS records: ''
                                  @ JSON_stringify (errors data))), st')
          else (Inr (result data), st'))"

definition getDNSRecord ::
  "CloudflareConfig \<Rightarrow> 'w net \<Rightarrow> string \<Rightarrow> 'w state \<Rightarrow> (js_error + DNSRecord) \<times> 'w state" where
  "getDNSRecord cfg nt recordId st =
     (case perform (fetch_record nt) RecordJson (get_request cfg recordId) st of
        (Inl e, st') \<Rightarrow> (Inl e, st')
      | (Inr data, st') \<Rightarrow>
          if \<not> success data
          then (Inl (new_Error (''Failed to get DNS record: ''
                                  @ JSON_stringify (errors data))), st')
          else (Inr (result data), st'))"

definition updateDNSRecord ::
  "CloudflareConfig \<Rightarrow> 'w net \<Rightarrow> string \<Rightarrow> string \<Rightarrow> string \<Rightarrow> string \<Rightarrow> 'w state
   \<Rightarrow> (js_error + unit) \<times> 'w state" where
  "updateDNSRecord cfg nt recordId nm ty ip st =
     (case getDNSRecord cfg nt recordId st of
        (Inl e, st1) \<Rightarrow> (Inl e, st1)
      | (Inr currentRecord, st1) \<Rightarrow>
          (case perform (fetch_put nt) PutJson
                  (put_request cfg recordId
                     (PutBody ty nm ip (ttl currentRecord) (proxied currentRecord))) st1 of
             (Inl e, st2) \<Rightarrow> (Inl e, st2)
           | (Inr data, st2) \<Rightarrow>
               if \<not> success data
               then (Inl (new_Error (''Failed to update DNS record: ''
                                       @ JSON_stringify (errors data))), st2)
               else (Inr (), st2)))"

text \<open>\<^verbatim>\<open>Array.prototype.includes\<close> on strings.\<close>

fun array_includes :: "'a list \<Rightarrow> 'a \<Rightarrow> bool" where
  "array_includes [] x = False"
| "array_includes (y # ys) x = (y = x \<or> array_includes ys x)"

text \<open>The filter of \<^verbatim>\<open>checkAndUpdateIP\<close>: the listed records whose name is allowed.\<close>

definition filterAllowed :: "CloudflareConfig \<Rightarrow> DNSRecord list \<Rightarrow> DNSRecord list" where
  "filterAllowed cfg allRecords =
     filter (\<lambda>record. array_includes (allowedRecords cfg) (name record)) allRecords"

text \<open>The body of the \<^verbatim>\<open>for\<close> loop, with its own \<^verbatim>\<open>try\<close>/\<^verbatim>\<open>catch\<close>.\<close>

definition checkRecord ::
  "CloudflareConfig \<Rightarrow> 'w net \<Rightarrow> string \<Rightarrow> DNSRecord \<Rightarrow> 'w state \<Rightarrow> 'w state" where
  "checkRecord cfg nt currentIP record st =
     (case getDNSRecord cfg nt (id' record)
             (log (LogChecking (name record) (type record)) st) of
        (Inl error, st1) \<Rightarrow> log (ErrRecord (name record) error) st1
      | (Inr dnsRecord, st1) \<Rightarrow>
          (let recordIP = content dnsRecord;
               st2 = log (LogCurrentDNSIP recordIP) st1
           in if recordIP \<noteq> currentIP
              then (case updateDNSRecord cfg nt (id' record) (name record) (type record)
                           currentIP (log LogMismatch st2) of
                      (Inl error, st3) \<Rightarrow> log (ErrRecord (name record) error) st3
                    | (Inr u, st3) \<Rightarrow> log (LogUpdated (name record) currentIP) st3)
              else log LogUpToDate st2))"

fun checkRecords ::
  "CloudflareConfig \<Rightarrow> 'w net \<Rightarrow> string \<Rightarrow> DNSRecord list \<Rightarrow> 'w state \<Rightarrow> 'w state" where
  "checkRecords cfg nt currentIP [] st = st"
| "checkRecords cfg nt currentIP (record # records) st =
     checkRecords cfg nt currentIP records (checkRecord cfg nt currentIP record st)"

datatype outcome = Returned | ProcessExit nat

text \<open>The outer \<^verbatim>\<open>catch\<close>: the error is printed and the process exits with code 1.\<close>

definition fatal :: "js_error \<Rightarrow> 'w state \<Rightarrow> outcome \<times> 'w state" where
  "fatal error st = (ProcessExit 1, log (ErrFatal error) st)"

definition checkAndUpdateIP ::
  "CloudflareConfig \<Rightarrow> 'w net \<Rightarrow> 'w state \<Rightarrow> outcome \<times> 'w state" where
  "checkAndUpdateIP cfg nt st =
     (case getCurrentIP nt (log (LogLookingFor (allowedRecords cfg)) (log LogStarting st)) of
        (Inl error, st1) \<Rightarrow> fatal error st1
      | (Inr currentIP, st1) \<Rightarrow>
          (case getAllDNSRecords cfg nt (log LogFetching (log (LogCurrentIP currentIP) st1)) of
             (Inl error, st2) \<Rightarrow> fatal error st2
           | (Inr allRecords, st2) \<Rightarrow>
               (let allowed = filterAllowed cfg allRecords
                in if length allowed = 0
                   then (Returned, log (LogNoMatch (allowedRecords cfg)) st2)
                   else (Returned,
                         log LogCompleted
                           (checkRecords cfg nt currentIP allowed
                              (log (LogFound (length allowed)) st2))))))"

section \<open>Start-up and the polling loop\<close>

text \<open>\<^verbatim>\<open>process.env.X || d\<close>: an unset or empty variable gives the default.\<close>

definition env_or :: "(string \<rightharpoonup> string) \<Rightarrow> string \<Rightarrow> string \<Rightarrow> string" where
  "env_or env k d = (case env k of None \<Rightarrow> d | Some v \<Rightarrow> if v = [] then d else v)"

text \<open>
  \<^verbatim>\<open>JSON.parse\<close> and \<^verbatim>\<open>parseInt\<close> belong to the platform and are parameters:
  \<open>JSON_parse\<close> throws or gives the array the source declares, \<open>parseInt\<close> takes
  the string and the radix.
\<close>

definition load_config ::
  "(string \<Rightarrow> js_error + string list) \<Rightarrow> (string \<Rightarrow> int \<Rightarrow> js_number) \<Rightarrow>
   (string \<rightharpoonup> string) \<Rightarrow> js_error + CloudflareConfig" where
  "load_config JSON_parse parseInt env =
     (case JSON_parse (env_or env ''CLOUDFLARE_ALLOWED_RECORDS'' ''[]'') of
        Inl e \<Rightarrow> Inl e
      | Inr records \<Rightarrow>
          Inr \<lparr>apiToken = env_or env ''CLOUDFLARE_API_TOKEN'' [],
               zoneId = env_or env ''CLOUDFLARE_ZONE_ID'' [],
               allowedRecords = records,
               checkIntervalMinutes =
                 parseInt (env_or env ''CHECK_INTERVAL_MINUTES'' ''5'') 10\<rparr>)"

text \<open>The three checks after the configuration is built; \<open>Some c\<close> is \<^verbatim>\<open>process.exit(c)\<close>.\<close>

definition validate :: "CloudflareConfig \<Rightarrow> 'w state \<Rightarrow> nat option \<times> 'w state" where
  "validate cfg st =
     (if apiToken cfg = [] then (Some 1, log ErrTokenRequired st)
      else if zoneId cfg = [] then (Some 1, log ErrZoneRequired st)
      else if length (allowedRecords cfg) = 0
      then (Some 1, log ErrRecordsFormat (log ErrRecordsRequired st))
      else (None, st))"

text \<open>
  How a run stands: the process has exited with a code, an exception reached the top
  level, or the loop is still going after the ticks the fuel allowed.
\<close>

datatype 'w run = Exited nat "'w state" | Uncaught js_error "'w state" | Looping "'w state"

definition sleep :: "CloudflareConfig \<Rightarrow> 'w state \<Rightarrow> 'w state" where
  "sleep cfg st =
     (let ms = js_times (js_times (checkIntervalMinutes cfg) (Num 60)) (Num 1000);
          st1 = log LogSeparator (log (LogNextCheck ms) st)
      in st1\<lparr>timers := timers st1 @ [ms]\<rparr>)"

text \<open>\<^verbatim>\<open>while (true)\<close>, with the number of ticks to follow as fuel.\<close>

fun main_loop :: "nat \<Rightarrow> CloudflareConfig \<Rightarrow> 'w net \<Rightarrow> 'w state \<Rightarrow> 'w run" where
  "main_loop 0 cfg nt st = Looping st"
| "main_loop (Suc n) cfg nt st =
     (case checkAndUpdateIP cfg nt st of
        (ProcessExit c, st') \<Rightarrow> Exited c st'
      | (Returned, st') \<Rightarrow> main_loop n cfg nt (sleep cfg st'))"

definition program ::
  "(string \<Rightarrow> js_error + string list) \<Rightarrow> (string \<Rightarrow> int \<Rightarrow> js_number) \<Rightarrow>
   (string \<rightharpoonup> string) \<Rightarrow> 'w net \<Rightarrow> nat \<Rightarrow> 'w state \<Rightarrow> 'w run" where
  "program JSON_parse parseInt env nt n st =
     (case load_config JSON_parse parseInt env of
        Inl e \<Rightarrow> Uncaught e st
      | Inr cfg \<Rightarrow>
          (case validate cfg st of
             (Some c, st') \<Rightarrow> Exited c st'
           | (None, st') \<Rightarrow>
               main_loop n cfg nt
                 (log LogPressCtrlC (log (LogRunning (checkIntervalMinutes cfg)) st'))))"

section \<open>Reading a run\<close>

text \<open>
  The error an operation throws on an answer, if any: \<open>getDNSRecord\<close>,
  \<open>updateDNSRecord\<close> (on the answer to its PUT) and \<open>getAllDNSRecords\<close>; and the
  one that belongs to a call, by its method.
\<close>

fun get_failure :: "response \<Rightarrow> js_error option" where
  "get_failure (Failed e) = Some e"
| "get_failure (RecordJson d) =
     (if success d then None
      else Some (new_Error (''Failed to get DNS record: '' @ JSON_stringify (errors d))))"
| "get_failure _ = None"

fun put_failure :: "response \<Rightarrow> js_error option" where
  "put_failure (Failed e) = Some e"
| "put_failure (PutJson d) =
     (if success d then None
      else Some (new_Error (''Failed to update DNS record: '' @ JSON_stringify (errors d))))"
| "put_failure _ = None"

fun list_failure :: "response \<Rightarrow> js_error option" where
  "list_failure (Failed e) = Some e"
| "list_failure (ListJson d) =
     (if success d then None
      else Some (new_Error (''Failed to get DNS records: '' @ JSON_stringify (errors d))))"
| "list_failure _ = None"

fun call_failure :: "http_request \<times> response \<Rightarrow> js_error option" where
  "call_failure (q, a) = (if http_method q = ''PUT'' then put_failure a else get_failure a)"

text \<open>
  What one pass of the loop body may leave behind for a record \<open>r\<close> when the
  discovered address is \<open>ip\<close>: the requests with their answers, and the console
  lines. Five courses: the first fetch fails; the content is equal; the second fetch
  (inside the update) fails; the PUT fails; the PUT succeeds. That every pass takes one
  of them is \<open>checkRecord_run\<close> below.
\<close>

inductive record_run ::
  "CloudflareConfig \<Rightarrow> string \<Rightarrow> DNSRecord \<Rightarrow> (http_request \<times> response) list \<Rightarrow>
   log_entry list \<Rightarrow> bool"
  for cfg :: CloudflareConfig and ip :: string and r :: DNSRecord where
  fetch_failed:
    "get_failure a = Some e \<Longrightarrow>
     record_run cfg ip r [(get_request cfg (id' r), a)]
       [LogChecking (name r) (type r), ErrRecord (name r) e]"
| up_to_date:
    "success d \<Longrightarrow> content (result d) = ip \<Longrightarrow>
     record_run cfg ip r [(get_request cfg (id' r), RecordJson d)]
       [LogChecking (name r) (type r), LogCurrentDNSIP (content (result d)), LogUpToDate]"
| refetch_failed:
    "success d \<Longrightarrow> content (result d) \<noteq> ip \<Longrightarrow> get_failure a = Some e \<Longrightarrow>
     record_run cfg ip r
       [(get_request cfg (id' r), RecordJson d), (get_request cfg (id' r), a)]
       [LogChecking (name r) (type r), LogCurrentDNSIP (content (result d)), LogMismatch,
        ErrRecord (name r) e]"
| update_failed:
    "success d \<Longrightarrow> content (result d) \<noteq> ip \<Longrightarrow> success d2 \<Longrightarrow> put_failure a = Some e \<Longrightarrow>
     record_run cfg ip r
       [(get_request cfg (id' r), RecordJson d), (get_request cfg (id' r), RecordJson d2),
        (put_request cfg (id' r)
           (PutBody (type r) (name r) ip (ttl (result d2)) (proxied (result d2))), a)]
       [LogChecking (name r) (type r), LogCurrentDNSIP (content (result d)), LogMismatch,
        ErrRecord (name r) e]"
| updated:
    "success d \<Longrightarrow> content (result d) \<noteq> ip \<Longrightarrow> success d2 \<Longrightarrow> success d3 \<Longrightarrow>
     record_run cfg ip r
       [(get_request cfg (id' r), RecordJson d), (get_request cfg (id' r), RecordJson d2),
        (put_request cfg (id' r)
           (PutBody (type r) (name r) ip (ttl (result d2)) (proxied (result d2))), PutJson d3)]
       [LogChecking (name r) (type r), LogCurrentDNSIP (content (result d)), LogMismatch,
        LogUpdated (name r) ip]"

code_pred record_run .

abbreviation runs_of ::
  "CloudflareConfig \<Rightarrow> string \<Rightarrow> DNSRecord list \<Rightarrow>
   ((http_request \<times> response) list \<times> log_entry list) list \<Rightarrow> bool" where
  "runs_of cfg ip rs runs \<equiv> list_all2 (\<lambda>r run. record_run cfg ip r (fst run) (snd run)) rs runs"

text \<open>The calls of a trace that go to one record, and the update calls of a trace.\<close>

definition calls_to ::
  "CloudflareConfig \<Rightarrow> string \<Rightarrow> (http_request \<times> response) list \<Rightarrow> (http_request \<times> response) list" where
  "calls_to cfg recordId xs = filter (\<lambda>x. url (fst x) = record_url cfg recordId) xs"

definition updates :: "(http_request \<times> response) list \<Rightarrow> (http_request \<times> response) list" where
  "updates xs = filter (\<lambda>x. http_method (fst x) = ''PUT'') xs"

text \<open>
  Two states are the same run when they differ at most in the allow-list printed in
  the two console lines that print it.
\<close>

fun scrub :: "log_entry \<Rightarrow> log_entry" where
  "scrub (LogLookingFor names) = LogLookingFor []"
| "scrub (LogNoMatch names) = LogNoMatch []"
| "scrub l = l"

definition same_run :: "'w state \<Rightarrow> 'w state \<Rightarrow> bool" where
  "same_run s t \<longleftrightarrow>
     world s = world t \<and> exchanges s = exchanges t \<and> timers s = timers t \<and>
     map scrub (console s) = map scrub (console t)"

section \<open>A scripted provider for concrete runs\<close>

text \<open>
  For running the program on concrete inputs the outside world is a script: the
  list of answers still to come. Each request takes the next one; an answer of the
  wrong shape fails to parse, and an exhausted script is a dead network.
\<close>

fun ip_of :: "response \<Rightarrow> string option" where
  "ip_of (IpJson s) = Some s" | "ip_of _ = None"
fun list_of :: "response \<Rightarrow> DNSRecord list cf_response option" where
  "list_of (ListJson d) = Some d" | "list_of _ = None"
fun record_of :: "response \<Rightarrow> DNSRecord cf_response option" where
  "record_of (RecordJson d) = Some d" | "record_of _ = None"
fun put_of :: "response \<Rightarrow> unit cf_response option" where
  "put_of (PutJson d) = Some d" | "put_of _ = None"

fun scripted_answer ::
  "(response \<Rightarrow> 'a option) \<Rightarrow> http_request \<Rightarrow> response list \<Rightarrow> (js_error + 'a) \<times> response list" where
  "scripted_answer pick req [] = (Inl (JsError ''TypeError'' ''fetch failed''), [])"
| "scripted_answer pick req (Failed e # rest) = (Inl e, rest)"
| "scripted_answer pick req (a # rest) =
     (case pick a of
        Some x \<Rightarrow> (Inr x, rest)
      | None \<Rightarrow> (Inl (JsError ''SyntaxError'' ''Unexpected token''), rest))"

definition scripted :: "response list net" where
  "scripted =
     \<lparr>fetch_ip = scripted_answer ip_of, fetch_list = scripted_answer list_of,
      fetch_record = scripted_answer record_of, fetch_put = scripted_answer put_of\<rparr>"

definition start :: "'w \<Rightarrow> 'w state" where
  "start w = \<lparr>world = w, exchanges = [], console = [], timers = []\<rparr>"

section \<open>A provider that keeps a zone\<close>

text \<open>
  A second outside world, for the runs in which the provider behaves: it holds the
  public address and the records of the zone, never fails, answers a fetch with the
  stored record and stores what a PUT sends.
\<close>

record zone_world =
  public_ip :: string
  zone :: "DNSRecord list"

definition store :: "put_body \<Rightarrow> DNSRecord \<Rightarrow> DNSRecord" where
  "store b r =
     r\<lparr>type := body_type b, name := body_name b, content := body_content b,
       ttl := body_ttl b, proxied := body_proxied b\<rparr>"

definition zone_provider :: "CloudflareConfig \<Rightarrow> zone_world net" where
  "zone_provider cfg =
     \<lparr>fetch_ip = (\<lambda>q w. (Inr (public_ip w), w)),
      fetch_list = (\<lambda>q w. (Inr (CfResponse True (zone w) []), w)),
      fetch_record = (\<lambda>q w.
        case find (\<lambda>r. record_url cfg (id' r) = url q) (zone w) of
          Some r \<Rightarrow> (Inr (CfResponse True r []), w)
        | None \<Rightarrow> (Inl (JsError ''TypeError'' ''fetch failed''), w)),
      fetch_put = (\<lambda>q w.
        case body q of
          Some b \<Rightarrow>
            (Inr (CfResponse True () []),
             w\<lparr>zone := map (\<lambda>r. if record_url cfg (id' r) = url q then store b r else r)
                          (zone w)\<rparr>)
        | None \<Rightarrow> (Inl (JsError ''TypeError'' ''fetch failed''), w))\<rparr>"

text \<open>The zone after the content of one record has been set.\<close>

definition set_content :: "string \<Rightarrow> string \<Rightarrow> DNSRecord list \<Rightarrow> DNSRecord list" where
  "set_content rid ip rs = map (\<lambda>x. if id' x = rid then x\<lparr>content := ip\<rparr> else x) rs"

text \<open>The configurations, records and scripts of the examples.\<close>

definition example_config :: CloudflareConfig where
  "example_config =
     \<lparr>apiToken = ''token'', zoneId = ''zone'', allowedRecords = [''a.example.com''],
      checkIntervalMinutes = Num 5\<rparr>"

definition both_config :: CloudflareConfig where
  "both_config =
     \<lparr>apiToken = ''token'', zoneId = ''zone'',
      allowedRecords = [''a.example.com'', ''b.example.com''],
      checkIntervalMinutes = Num 5\<rparr>"

definition reordered_config :: CloudflareConfig where
  "reordered_config =
     \<lparr>apiToken = ''token'', zoneId = ''zone'',
      allowedRecords = [''b.example.com'', ''a.example.com''],
      checkIntervalMinutes = Num 5\<rparr>"

definition record_a :: DNSRecord where
  "record_a = \<lparr>id' = ''1'', name = ''a.example.com'', type = ''A'', content = ''1.1.1.1'',
                proxied = True, ttl = 300\<rparr>"

definition record_b :: DNSRecord where
  "record_b = \<lparr>id' = ''2'', name = ''b.example.com'', type = ''A'', content = ''1.1.1.1'',
                proxied = False, ttl = 1\<rparr>"

definition wildcard_record :: DNSRecord where
  "wildcard_record = \<lparr>id' = ''3'', name = ''*.example.com'', type = ''A'', content = ''1.1.1.1'',
                proxied = False, ttl = 1\<rparr>"

definition renamed_a :: DNSRecord where
  "renamed_a = \<lparr>id' = ''1'', name = ''renamed.example.com'', type = ''CNAME'',
                 content = ''1.1.1.1'', proxied = False, ttl = 120\<rparr>"

definition updated_a :: DNSRecord where
  "updated_a = \<lparr>id' = ''1'', name = ''a.example.com'', type = ''A'', content = ''2.2.2.2'',
                 proxied = True, ttl = 300\<rparr>"

definition ok :: "'a \<Rightarrow> 'a cf_response" where
  "ok x = CfResponse True x []"

definition refused :: "'a \<Rightarrow> 'a cf_response" where
  "refused x = CfResponse False x [''1001'']"

definition net_down :: js_error where
  "net_down = JsError ''TypeError'' ''fetch failed''"

definition example_script :: "response list" where
  "example_script =
     [IpJson ''2.2.2.2'', ListJson (ok [record_a, record_b]),
      RecordJson (ok record_a), RecordJson (ok record_a), PutJson (ok ())]"

definition raced_script :: "response list" where
  "raced_script =
     [IpJson ''2.2.2.2'', ListJson (ok [record_a, record_b]),
      RecordJson (ok record_a), RecordJson (ok renamed_a), PutJson (ok ())]"

definition refetch_fails_script :: "response list" where
  "refetch_fails_script =
     [IpJson ''2.2.2.2'', ListJson (ok [record_a, record_b]),
      RecordJson (ok record_a), RecordJson (refused record_a)]"

definition refetch_rejected_script :: "response list" where
  "refetch_rejected_script =
     [IpJson ''2.2.2.2'', ListJson (ok [record_a, record_b]),
      RecordJson (ok record_a), Failed net_down]"

definition isolation_script :: "response list" where
  "isolation_script =
     [IpJson ''2.2.2.2'', ListJson (ok [record_a, record_b]),
      RecordJson (refused record_a),
      RecordJson (ok record_b), RecordJson (ok record_b), PutJson (ok ())]"

definition two_tick_script :: "response list" where
  "two_tick_script =
     example_script @
     [IpJson ''2.2.2.2'', ListJson (ok [updated_a, record_b]), RecordJson (ok updated_a)]"

definition second_tick_start :: "response list state" where
  "second_tick_start =
     sleep example_config
       (snd (checkAndUpdateIP example_config scripted (start two_tick_script)))"

definition example_zone :: zone_world where
  "example_zone = \<lparr>public_ip = ''2.2.2.2'', zone = [record_a, record_b]\<rparr>"

definition example_env :: "string \<rightharpoonup> string" where
  \<open>example_env =
     [''CLOUDFLARE_API_TOKEN'' \<mapsto> ''token'', ''CLOUDFLARE_ZONE_ID'' \<mapsto> ''zone'',
      ''CLOUDFLARE_ALLOWED_RECORDS'' \<mapsto> ''["a.example.com"]'',
      ''CHECK_INTERVAL_MINUTES'' \<mapsto> ''soon'']\<close>

text \<open>\<^verbatim>\<open>JSON.parse\<close> and \<^verbatim>\<open>parseInt\<close> on the strings of the examples.\<close>

definition example_JSON_parse :: "string \<Rightarrow> js_error + string list" where
  \<open>example_JSON_parse s =
     (if s = ''[]'' then Inr []
      else if s = ''["a.example.com"]'' then Inr [''a.example.com'']
      else Inl (JsError ''SyntaxError'' ''Unexpected token''))\<close>

definition example_parseInt :: "string \<Rightarrow> int \<Rightarrow> js_number" where
  "example_parseInt s radix = (if s = ''5'' then Num 5 else NaN)"

section \<open>Basic facts\<close>

lemmas request_defs = ip_request_def list_request_def get_request_def put_request_def
  record_url_def auth_headers_def

lemmas program_defs = checkAndUpdateIP_def getCurrentIP_def getAllDNSRecords_def
  getDNSRecord_def updateDNSRecord_def checkRecord_def perform_def log_def fatal_def
  filterAllowed_def new_Error_def error_toString_def JSON_stringify_def Let_def

lemmas example_defs = example_config_def record_a_def record_b_def ok_def refused_def
  start_def net_down_def

lemma to_double_exact [simp]: "\<bar>n\<bar> < 2 ^ 53 \<Longrightarrow> to_double n = Num n"
  by (simp add: to_double_def Let_def nat_less_iff)

lemma js_times_rounds:
  "js_times (js_times (Num (2 ^ 53 - 1)) (Num 60)) (Num 1000) = Num 540431955284459454464"
  by (simp add: to_double_def Let_def bits.simps)

lemma js_times_Infinity:
  "js_times (js_times Infinity (Num 60)) (Num 1000) = Infinity"
  by simp

lemma log_simps [simp]:
  "world (log l st) = world st" "exchanges (log l st) = exchanges st"
  "console (log l st) = console st @ [l]" "timers (log l st) = timers st"
  by (simp_all add: log_def)

lemma perform_eq:
  "perform h wrap req st =
     (fst (h req (world st)),
      st\<lparr>world := snd (h req (world st)),
         exchanges := exchanges st @
           [(req, case fst (h req (world st)) of Inl e \<Rightarrow> Failed e | Inr a \<Rightarrow> wrap a)]\<rparr>)"
  by (simp add: perform_def split: prod.splits)

lemma getCurrentIP_eq:
  "getCurrentIP nt st =
     (case fst (fetch_ip nt ip_request (world st)) of
        Inl e \<Rightarrow> Inl (new_Error (''Failed to get current IP: '' @ error_toString e))
      | Inr ip \<Rightarrow> Inr ip,
      st\<lparr>world := snd (fetch_ip nt ip_request (world st)),
         exchanges := exchanges st @
           [(ip_request, case fst (fetch_ip nt ip_request (world st)) of
                           Inl e \<Rightarrow> Failed e | Inr ip \<Rightarrow> IpJson ip)]\<rparr>)"
  by (simp add: getCurrentIP_def perform_eq split: sum.splits)

lemma getAllDNSRecords_eq:
  "getAllDNSRecords cfg nt st =
     (case fst (fetch_list nt (list_request cfg) (world st)) of
        Inl e \<Rightarrow> Inl e
      | Inr data \<Rightarrow>
          if success data then Inr (result data)
          else Inl (new_Error (''Failed to get DNS records: '' @ JSON_stringify (errors data))),
      st\<lparr>world := snd (fetch_list nt (list_request cfg) (world st)),
         exchanges := exchanges st @
           [(list_request cfg, case fst (fetch_list nt (list_request cfg) (world st)) of
                           Inl e \<Rightarrow> Failed e | Inr d \<Rightarrow> ListJson d)]\<rparr>)"
  by (simp add: getAllDNSRecords_def perform_eq split: sum.splits)

lemma scripted_simps [simp]:
  "fetch_ip scripted = scripted_answer ip_of"
  "fetch_list scripted = scripted_answer list_of"
  "fetch_record scripted = scripted_answer record_of"
  "fetch_put scripted = scripted_answer put_of"
  by (simp_all add: scripted_def)

lemma array_includes_set: "array_includes xs x \<longleftrightarrow> x \<in> set xs"
  by (induction xs) auto

lemma main_loop_Returned:
  "fst (checkAndUpdateIP cfg nt st) = Returned \<Longrightarrow>
   main_loop (Suc n) cfg nt st = main_loop n cfg nt (sleep cfg (snd (checkAndUpdateIP cfg nt st)))"
  by (cases "checkAndUpdateIP cfg nt st") simp

subsection \<open>The shape of a tick\<close>

lemma getDNSRecord_cases:
  obtains (fail) a e w where "get_failure a = Some e"
      "getDNSRecord cfg nt rid st =
         (Inl e, st\<lparr>world := w, exchanges := exchanges st @ [(get_request cfg rid, a)]\<rparr>)"
  | (ok) d w where "success d"
      "getDNSRecord cfg nt rid st =
         (Inr (result d),
          st\<lparr>world := w, exchanges := exchanges st @ [(get_request cfg rid, RecordJson d)]\<rparr>)"
proof (cases "fetch_record nt (get_request cfg rid) (world st)")
  case (Pair x w)
  show ?thesis
  proof (cases x)
    case (Inl e)
    with Pair have "getDNSRecord cfg nt rid st =
         (Inl e, st\<lparr>world := w, exchanges := exchanges st @ [(get_request cfg rid, Failed e)]\<rparr>)"
      by (simp add: getDNSRecord_def perform_eq)
    then show ?thesis using fail [of "Failed e" e w] by simp
  next
    case (Inr d)
    show ?thesis
    proof (cases "success d")
      case True
      with Pair Inr show ?thesis using ok [of d w]
        by (simp add: getDNSRecord_def perform_eq)
    next
      case False
      with Pair Inr show ?thesis
        using fail [of "RecordJson d" "new_Error (''Failed to get DNS record: '' @ JSON_stringify (errors d))" w]
        by (simp add: getDNSRecord_def perform_eq)
    qed
  qed
qed

lemma updateDNSRecord_cases:
  obtains (refetch) a e w where "get_failure a = Some e"
      "updateDNSRecord cfg nt rid nm ty ip st =
         (Inl e, st\<lparr>world := w, exchanges := exchanges st @ [(get_request cfg rid, a)]\<rparr>)"
  | (put_fail) d a e w where "success d" "put_failure a = Some e"
      "updateDNSRecord cfg nt rid nm ty ip st =
         (Inl e, st\<lparr>world := w, exchanges := exchanges st @
            [(get_request cfg rid, RecordJson d),
             (put_request cfg rid (PutBody ty nm ip (ttl (result d)) (proxied (result d))), a)]\<rparr>)"
  | (put_ok) d d3 w where "success d" "success d3"
      "updateDNSRecord cfg nt rid nm ty ip st =
         (Inr (), st\<lparr>world := w, exchanges := exchanges st @
            [(get_request cfg rid, RecordJson d),
             (put_request cfg rid (PutBody ty nm ip (ttl (result d)) (proxied (result d))),
              PutJson d3)]\<rparr>)"
proof (cases rule: getDNSRecord_cases [of cfg nt rid st])
  case (fail a e w)
  then show ?thesis using refetch [of a e w] by (simp add: updateDNSRecord_def)
next
  case (ok d w)
  let ?st1 = "st\<lparr>world := w, exchanges := exchanges st @ [(get_request cfg rid, RecordJson d)]\<rparr>"
  let ?req = "put_request cfg rid (PutBody ty nm ip (ttl (result d)) (proxied (result d)))"
  obtain x w' where f: "fetch_put nt ?req w = (x, w')" by (cases "fetch_put nt ?req w")
  show ?thesis
  proof (cases x)
    case (Inl e)
    with ok f show ?thesis using put_fail [of d "Failed e" e w']
      by (simp add: updateDNSRecord_def perform_eq)
  next
    case (Inr d3)
    show ?thesis
    proof (cases "success d3")
      case True
      with ok f Inr show ?thesis using put_ok [of d d3 w']
        by (simp add: updateDNSRecord_def perform_eq)
    next
      case False
      with ok f Inr show ?thesis
        using put_fail [of d "PutJson d3" "new_Error (''Failed to update DNS record: '' @ JSON_stringify (errors d3))" w']
        by (simp add: updateDNSRecord_def perform_eq)
    qed
  qed
qed

lemma checkRecord_run:
  "\<exists>seg logs. exchanges (checkRecord cfg nt ip r st) = exchanges st @ seg \<and>
     console (checkRecord cfg nt ip r st) = console st @ logs \<and>
     timers (checkRecord cfg nt ip r st) = timers st \<and>
     record_run cfg ip r seg logs"
proof (cases rule: getDNSRecord_cases [of cfg nt "id' r" "log (LogChecking (name r) (type r)) st"])
  case (fail a e w)
  then show ?thesis
    by (auto simp: checkRecord_def intro!: record_run.fetch_failed)
next
  case (ok d w)
  note first = ok
  show ?thesis
  proof (cases "content (result d) = ip")
    case True
    with first show ?thesis
      by (auto simp: checkRecord_def intro!: record_run.up_to_date)
  next
    case False
    let ?st2 = "log LogMismatch (log (LogCurrentDNSIP (content (result d)))
        ((log (LogChecking (name r) (type r)) st)\<lparr>world := w,
           exchanges := exchanges (log (LogChecking (name r) (type r)) st)
              @ [(get_request cfg (id' r), RecordJson d)]\<rparr>))"
    show ?thesis
    proof (cases rule: updateDNSRecord_cases [of cfg nt "id' r" "name r" "type r" ip ?st2])
      case (refetch a e w')
      with first False show ?thesis
        by (auto simp: checkRecord_def Let_def intro!: record_run.refetch_failed)
    next
      case (put_fail d2 a e w')
      with first False show ?thesis
        by (auto simp: checkRecord_def Let_def intro!: record_run.update_failed)
    next
      case (put_ok d2 d3 w')
      with first False show ?thesis
        by (auto simp: checkRecord_def Let_def intro!: record_run.updated)
    qed
  qed
qed

lemma checkRecords_runs:
  "\<exists>runs. runs_of cfg ip rs runs \<and>
     exchanges (checkRecords cfg nt ip rs st) = exchanges st @ concat (map fst runs) \<and>
     console (checkRecords cfg nt ip rs st) = console st @ concat (map snd runs) \<and>
     timers (checkRecords cfg nt ip rs st) = timers st"
proof (induction rs arbitrary: st)
  case Nil
  show ?case by simp
next
  case (Cons r rs)
  obtain seg logs where one:
    "exchanges (checkRecord cfg nt ip r st) = exchanges st @ seg"
    "console (checkRecord cfg nt ip r st) = console st @ logs"
    "timers (checkRecord cfg nt ip r st) = timers st"
    "record_run cfg ip r seg logs"
    using checkRecord_run [of cfg nt ip r st] by blast
  obtain runs where more:
    "runs_of cfg ip rs runs"
    "exchanges (checkRecords cfg nt ip rs (checkRecord cfg nt ip r st))
       = exchanges (checkRecord cfg nt ip r st) @ concat (map fst runs)"
    "console (checkRecords cfg nt ip rs (checkRecord cfg nt ip r st))
       = console (checkRecord cfg nt ip r st) @ concat (map snd runs)"
    "timers (checkRecords cfg nt ip rs (checkRecord cfg nt ip r st))
       = timers (checkRecord cfg nt ip r st)"
    using Cons.IH [of "checkRecord cfg nt ip r st"] by blast
  have "runs_of cfg ip (r # rs) ((seg, logs) # runs)"
    using one(4) more(1) by simp
  moreover have "exchanges (checkRecords cfg nt ip (r # rs) st)
      = exchanges st @ concat (map fst ((seg, logs) # runs))"
    using one(1) more(2) by simp
  moreover have "console (checkRecords cfg nt ip (r # rs) st)
      = console st @ concat (map snd ((seg, logs) # runs))"
    using one(2) more(3) by simp
  moreover have "timers (checkRecords cfg nt ip (r # rs) st) = timers st"
    using one(3) more(4) by simp
  ultimately show ?case by blast
qed

lemma tick_cases:
  assumes "checkAndUpdateIP cfg nt st = (out, st')"
  obtains (ip_failed) e where
      "out = ProcessExit 1"
      "exchanges st' = exchanges st @ [(ip_request, Failed e)]"
      "console st' = console st @ [LogStarting, LogLookingFor (allowedRecords cfg),
         ErrFatal (new_Error (''Failed to get current IP: '' @ error_toString e))]"
  | (list_failed) ip a e where
      "out = ProcessExit 1" "list_failure a = Some e"
      "exchanges st' = exchanges st @ [(ip_request, IpJson ip), (list_request cfg, a)]"
      "console st' = console st @ [LogStarting, LogLookingFor (allowedRecords cfg),
         LogCurrentIP ip, LogFetching, ErrFatal e]"
  | (no_match) ip data where
      "out = Returned" "success data" "filterAllowed cfg (result data) = []"
      "exchanges st' = exchanges st @ [(ip_request, IpJson ip), (list_request cfg, ListJson data)]"
      "console st' = console st @ [LogStarting, LogLookingFor (allowedRecords cfg),
         LogCurrentIP ip, LogFetching, LogNoMatch (allowedRecords cfg)]"
  | (processed) ip data runs where
      "out = Returned" "success data" "filterAllowed cfg (result data) \<noteq> []"
      "runs_of cfg ip (filterAllowed cfg (result data)) runs"
      "exchanges st' = exchanges st @
         (ip_request, IpJson ip) # (list_request cfg, ListJson data) # concat (map fst runs)"
      "console st' = console st @ [LogStarting, LogLookingFor (allowedRecords cfg),
         LogCurrentIP ip, LogFetching, LogFound (length (filterAllowed cfg (result data)))]
         @ concat (map snd runs) @ [LogCompleted]"
proof -
  let ?st0 = "log (LogLookingFor (allowedRecords cfg)) (log LogStarting st)"
  obtain x w where fip: "fetch_ip nt ip_request (world st) = (x, w)"
    by (cases "fetch_ip nt ip_request (world st)")
  show ?thesis
  proof (cases x)
    case (Inl e)
    with fip assms show ?thesis using ip_failed [of e]
      by (auto simp: checkAndUpdateIP_def getCurrentIP_eq fatal_def)
  next
    case (Inr ip)
    let ?st1 = "log LogFetching (log (LogCurrentIP ip)
       (?st0\<lparr>world := w, exchanges := exchanges st @ [(ip_request, IpJson ip)]\<rparr>))"
    obtain y w2 where fl: "fetch_list nt (list_request cfg) w = (y, w2)"
      by (cases "fetch_list nt (list_request cfg) w")
    show ?thesis
    proof (cases "case y of Inl e \<Rightarrow> True | Inr d \<Rightarrow> \<not> success d")
      case True
      with fip Inr fl assms show ?thesis
        using list_failed [of "case y of Inl e \<Rightarrow> Failed e | Inr d \<Rightarrow> ListJson d"
            "the (list_failure (case y of Inl e \<Rightarrow> Failed e | Inr d \<Rightarrow> ListJson d))" ip]
        by (auto simp: checkAndUpdateIP_def getCurrentIP_eq getAllDNSRecords_eq fatal_def
            split: sum.splits)
    next
      case False
      then obtain data where y: "y = Inr data" "success data"
        by (cases y) auto
      let ?st2 = "?st1\<lparr>world := w2, exchanges := exchanges st @
          [(ip_request, IpJson ip), (list_request cfg, ListJson data)]\<rparr>"
      show ?thesis
      proof (cases "filterAllowed cfg (result data) = []")
        case True
        with fip Inr fl y assms show ?thesis using no_match [of data ip]
          by (auto simp: checkAndUpdateIP_def getCurrentIP_eq getAllDNSRecords_eq)
      next
        case False
        let ?st3 = "log (LogFound (length (filterAllowed cfg (result data)))) ?st2"
        obtain runs where runs:
          "runs_of cfg ip (filterAllowed cfg (result data)) runs"
          "exchanges (checkRecords cfg nt ip (filterAllowed cfg (result data)) ?st3)
             = exchanges ?st3 @ concat (map fst runs)"
          "console (checkRecords cfg nt ip (filterAllowed cfg (result data)) ?st3)
             = console ?st3 @ concat (map snd runs)"
          using checkRecords_runs [of cfg ip "filterAllowed cfg (result data)" nt ?st3] by blast
        have "st' = log LogCompleted
            (checkRecords cfg nt ip (filterAllowed cfg (result data)) ?st3)" and "out = Returned"
          using fip Inr fl y assms False
          by (auto simp: checkAndUpdateIP_def getCurrentIP_eq getAllDNSRecords_eq Let_def)
        with runs False y show ?thesis using processed [of data ip runs]
          by simp
      qed
    qed
  qed
qed

lemma tick_runs:
  assumes "checkAndUpdateIP cfg nt st = (out, st')"
    and "exchanges st' = exchanges st @ (q0, IpJson ip) # (q1, ListJson data) # rest"
    and "success data"
  shows "out = Returned \<and>
     (\<exists>runs. runs_of cfg ip (filterAllowed cfg (result data)) runs \<and>
        rest = concat (map fst runs) \<and>
        (\<exists>pre post. console st' = console st @ pre @ concat (map snd runs) @ post))"
  using assms(1)
proof (cases rule: tick_cases)
  case (ip_failed e)
  with assms(2) show ?thesis by simp
next
  case (list_failed ip' a e)
  with assms(2,3) show ?thesis by auto
next
  case (no_match ip' data')
  with assms(2) show ?thesis by auto
next
  case (processed ip' data' runs)
  from processed(5) assms(2) have "ip' = ip" "data' = data" "rest = concat (map fst runs)"
    by auto
  with processed show ?thesis by blast
qed

subsection \<open>The calls to one record\<close>

lemma record_run_url:
  "record_run cfg ip r seg logs \<Longrightarrow> x \<in> set seg \<Longrightarrow> url (fst x) = record_url cfg (id' r)"
  by (auto elim!: record_run.cases simp: get_request_def put_request_def)

lemma record_url_inj: "record_url cfg a = record_url cfg b \<longleftrightarrow> a = b"
  by (simp add: record_url_def)

lemma calls_to_append: "calls_to cfg rid (xs @ ys) = calls_to cfg rid xs @ calls_to cfg rid ys"
  by (simp add: calls_to_def)

lemma calls_to_own: "record_run cfg ip r seg logs \<Longrightarrow> calls_to cfg (id' r) seg = seg"
  unfolding calls_to_def by (rule filter_True) (simp add: record_run_url)

lemma calls_to_other:
  "record_run cfg ip r seg logs \<Longrightarrow> id' r \<noteq> rid \<Longrightarrow> calls_to cfg rid seg = []"
  unfolding calls_to_def by (auto simp: filter_empty_conv record_run_url record_url_inj)

lemma calls_to_others:
  "runs_of cfg ip rs runs \<Longrightarrow> rid \<notin> id' ` set rs \<Longrightarrow>
   calls_to cfg rid (concat (map fst runs)) = []"
proof (induction rs runs rule: list_all2_induct)
  case Nil
  show ?case by (simp add: calls_to_def)
next
  case (Cons r rs run runs)
  from Cons.prems have "id' r \<noteq> rid" "rid \<notin> id' ` set rs" by auto
  with Cons.hyps(1) Cons.IH have "calls_to cfg rid (fst run) = []"
    "calls_to cfg rid (concat (map fst runs)) = []"
    by (auto intro: calls_to_other)
  then show ?case by (simp add: calls_to_append)
qed

lemma calls_to_runs:
  "runs_of cfg ip rs runs \<Longrightarrow> distinct (map id' rs) \<Longrightarrow> r \<in> set rs \<Longrightarrow>
   \<exists>logs. record_run cfg ip r (calls_to cfg (id' r) (concat (map fst runs))) logs"
proof (induction rs runs rule: list_all2_induct)
  case Nil
  then show ?case by simp
next
  case (Cons x rs run runs)
  show ?case
  proof (cases "r = x")
    case True
    have "id' x \<notin> id' ` set rs" using Cons.prems(1) by simp
    with Cons.hyps(2) have "calls_to cfg (id' x) (concat (map fst runs)) = []"
      by (rule calls_to_others)
    moreover have "calls_to cfg (id' x) (fst run) = fst run"
      using Cons.hyps(1) by (rule calls_to_own)
    ultimately show ?thesis
      using True Cons.hyps(1) by (auto simp: calls_to_append)
  next
    case False
    with Cons.prems have "r \<in> set rs" "id' x \<noteq> id' r" "distinct (map id' rs)" by auto
    with Cons.hyps(1) Cons.IH have "calls_to cfg (id' r) (fst run) = []"
      "\<exists>logs. record_run cfg ip r (calls_to cfg (id' r) (concat (map fst runs))) logs"
      by (auto intro: calls_to_other)
    then show ?thesis by (simp add: calls_to_append)
  qed
qed

lemma tick_record_calls:
  assumes "checkAndUpdateIP cfg nt st = (out, st')"
    and "exchanges st' = exchanges st @ (q0, IpJson ip) # (q1, ListJson data) # rest"
    and "success data"
    and "distinct (map id' (filterAllowed cfg (result data)))"
    and "r \<in> set (filterAllowed cfg (result data))"
  shows "\<exists>logs. record_run cfg ip r (calls_to cfg (id' r) rest) logs"
proof -
  from tick_runs [OF assms(1-3)] obtain runs where
    "runs_of cfg ip (filterAllowed cfg (result data)) runs" "rest = concat (map fst runs)"
    by blast
  with assms(4,5) show ?thesis
    using calls_to_runs [of cfg ip "filterAllowed cfg (result data)" runs r] by simp
qed

lemma updates_get [simp]: "updates ((get_request cfg rid, a) # xs) = updates xs"
  by (simp add: updates_def get_request_def)

lemma updates_put [simp]: "updates ((put_request cfg rid b, a) # xs) = (put_request cfg rid b, a) # updates xs"
  by (simp add: updates_def put_request_def)

lemma updates_Nil [simp]: "updates [] = []"
  by (simp add: updates_def)

lemma updates_append: "updates (xs @ ys) = updates xs @ updates ys"
  by (simp add: updates_def)

subsection \<open>Runs that differ in the console only\<close>

lemma same_run_log: "same_run s t \<Longrightarrow> scrub l = scrub l' \<Longrightarrow> same_run (log l s) (log l' t)"
  by (simp add: same_run_def)

lemma same_run_perform:
  assumes "same_run s t"
  obtains x s' t' where "perform h wrap q s = (x, s')" "perform h wrap q t = (x, t')"
    "same_run s' t'"
  using assms by (simp add: same_run_def perform_eq)

lemma same_run_getDNSRecord:
  assumes "same_run s t"
  obtains x s' t' where "getDNSRecord cfg nt rid s = (x, s')" "getDNSRecord cfg nt rid t = (x, t')"
    "same_run s' t'"
proof -
  from assms obtain y s' t' where
    "perform (fetch_record nt) RecordJson (get_request cfg rid) s = (y, s')"
    "perform (fetch_record nt) RecordJson (get_request cfg rid) t = (y, t')" "same_run s' t'"
    by (rule same_run_perform)
  moreover define x where "x = (case y of Inl e \<Rightarrow> Inl e
    | Inr data \<Rightarrow>
        if \<not> success data
        then Inl (new_Error (''Failed to get DNS record: '' @ JSON_stringify (errors data)))
        else Inr (result data))"
  ultimately have "getDNSRecord cfg nt rid s = (x, s')" "getDNSRecord cfg nt rid t = (x, t')"
    by (simp_all add: getDNSRecord_def split: sum.splits)
  with \<open>same_run s' t'\<close> show ?thesis by (rule that [rotated 2])
qed

lemma same_run_updateDNSRecord:
  assumes "same_run s t"
  obtains x s' t' where "updateDNSRecord cfg nt rid nm ty ip s = (x, s')"
    "updateDNSRecord cfg nt rid nm ty ip t = (x, t')" "same_run s' t'"
proof -
  from assms obtain y s1 t1 where get:
    "getDNSRecord cfg nt rid s = (y, s1)" "getDNSRecord cfg nt rid t = (y, t1)" "same_run s1 t1"
    by (rule same_run_getDNSRecord)
  show ?thesis
  proof (cases y)
    case (Inl e)
    with get that show ?thesis by (simp add: updateDNSRecord_def)
  next
    case (Inr currentRecord)
    let ?q = "put_request cfg rid (PutBody ty nm ip (ttl currentRecord) (proxied currentRecord))"
    from get(3) obtain z s2 t2 where put:
      "perform (fetch_put nt) PutJson ?q s1 = (z, s2)"
      "perform (fetch_put nt) PutJson ?q t1 = (z, t2)" "same_run s2 t2"
      by (rule same_run_perform)
    define x where "x = (case z of Inl e \<Rightarrow> Inl e
      | Inr data \<Rightarrow>
          if \<not> success data
          then Inl (new_Error (''Failed to update DNS record: '' @ JSON_stringify (errors data)))
          else Inr ())"
    with get Inr put have "updateDNSRecord cfg nt rid nm ty ip s = (x, s2)"
      "updateDNSRecord cfg nt rid nm ty ip t = (x, t2)"
      by (simp_all add: updateDNSRecord_def split: sum.splits)
    with \<open>same_run s2 t2\<close> show ?thesis by (rule that [rotated 2])
  qed
qed

lemma same_run_checkRecord:
  assumes "same_run s t"
  shows "same_run (checkRecord cfg nt ip r s) (checkRecord cfg nt ip r t)"
proof -
  from assms have "same_run (log (LogChecking (name r) (type r)) s)
      (log (LogChecking (name r) (type r)) t)"
    by (simp add: same_run_log)
  then obtain y s1 t1 where get:
    "getDNSRecord cfg nt (id' r) (log (LogChecking (name r) (type r)) s) = (y, s1)"
    "getDNSRecord cfg nt (id' r) (log (LogChecking (name r) (type r)) t) = (y, t1)"
    "same_run s1 t1"
    by (rule same_run_getDNSRecord)
  show ?thesis
  proof (cases y)
    case (Inl e)
    with get show ?thesis by (simp add: checkRecord_def same_run_log)
  next
    case (Inr dnsRecord)
    show ?thesis
    proof (cases "content dnsRecord = ip")
      case True
      with get Inr show ?thesis by (simp add: checkRecord_def same_run_log)
    next
      case False
      from get(3) have "same_run (log LogMismatch (log (LogCurrentDNSIP (content dnsRecord)) s1))
          (log LogMismatch (log (LogCurrentDNSIP (content dnsRecord)) t1))"
        by (simp add: same_run_log)
      then obtain z s2 t2 where
        "updateDNSRecord cfg nt (id' r) (name r) (type r) ip
           (log LogMismatch (log (LogCurrentDNSIP (content dnsRecord)) s1)) = (z, s2)"
        "updateDNSRecord cfg nt (id' r) (name r) (type r) ip
           (log LogMismatch (log (LogCurrentDNSIP (content dnsRecord)) t1)) = (z, t2)"
        "same_run s2 t2"
        by (rule same_run_updateDNSRecord)
      with get Inr False show ?thesis
        by (cases z) (simp_all add: checkRecord_def Let_def same_run_log)
    qed
  qed
qed

lemma same_run_checkRecords:
  "same_run s t \<Longrightarrow> same_run (checkRecords cfg nt ip rs s) (checkRecords cfg nt ip rs t)"
  by (induction rs arbitrary: s t) (simp_all add: same_run_checkRecord)

lemma same_run_getCurrentIP:
  assumes "same_run s t"
  obtains x s' t' where "getCurrentIP nt s = (x, s')" "getCurrentIP nt t = (x, t')"
    "same_run s' t'"
  using assms by (simp add: same_run_def getCurrentIP_eq)

lemma same_run_getAllDNSRecords:
  assumes "same_run s t"
  obtains x s' t' where "getAllDNSRecords cfg nt s = (x, s')" "getAllDNSRecords cfg nt t = (x, t')"
    "same_run s' t'"
  using assms by (simp add: same_run_def getAllDNSRecords_eq)

lemma filterAllowed_set:
  "set (allowedRecords cfg') = set (allowedRecords cfg) \<Longrightarrow>
   filterAllowed cfg' allRecords = filterAllowed cfg allRecords"
  by (simp add: filterAllowed_def array_includes_set)

lemma same_requests:
  assumes "zoneId cfg' = zoneId cfg" "apiToken cfg' = apiToken cfg"
  shows "get_request cfg' = get_request cfg" "put_request cfg' = put_request cfg"
    "list_request cfg' = list_request cfg"
  using assms by (auto simp: request_defs fun_eq_iff)

lemma same_getDNSRecord:
  assumes "zoneId cfg' = zoneId cfg" "apiToken cfg' = apiToken cfg"
  shows "getDNSRecord cfg' nt rid st = getDNSRecord cfg nt rid st"
  by (simp add: getDNSRecord_def same_requests [OF assms])

lemma same_updateDNSRecord:
  assumes "zoneId cfg' = zoneId cfg" "apiToken cfg' = apiToken cfg"
  shows "updateDNSRecord cfg' nt rid nm ty ip st = updateDNSRecord cfg nt rid nm ty ip st"
  unfolding updateDNSRecord_def same_getDNSRecord [OF assms] same_requests [OF assms] ..

lemma same_checkRecord:
  assumes "zoneId cfg' = zoneId cfg" "apiToken cfg' = apiToken cfg"
  shows "checkRecord cfg' nt ip r st = checkRecord cfg nt ip r st"
  unfolding checkRecord_def same_getDNSRecord [OF assms] same_updateDNSRecord [OF assms] ..

lemma same_operations:
  assumes "zoneId cfg' = zoneId cfg" "apiToken cfg' = apiToken cfg"
  shows "checkRecords cfg' nt ip rs st = checkRecords cfg nt ip rs st"
    and "getAllDNSRecords cfg' nt st = getAllDNSRecords cfg nt st"
proof -
  show "checkRecords cfg' nt ip rs st = checkRecords cfg nt ip rs st"
    by (induction rs arbitrary: st) (simp_all add: same_checkRecord [OF assms])
  show "getAllDNSRecords cfg' nt st = getAllDNSRecords cfg nt st"
    by (simp add: getAllDNSRecords_def same_requests [OF assms])
qed

subsection \<open>The provider that keeps a zone\<close>

lemma zone_provider_simps [simp]:
  "fetch_ip (zone_provider cfg) q w = (Inr (public_ip w), w)"
  "fetch_list (zone_provider cfg) q w = (Inr (CfResponse True (zone w) []), w)"
  by (simp_all add: zone_provider_def)

lemma find_by_id:
  "distinct (map id' rs) \<Longrightarrow> r \<in> set rs \<Longrightarrow> find (\<lambda>x. id' x = id' r) rs = Some r"
  by (induction rs) (auto simp: rev_image_eqI)

lemma zone_fetch_record:
  assumes "distinct (map id' (zone w))" "r \<in> set (zone w)"
  shows "fetch_record (zone_provider cfg) (get_request cfg (id' r)) w
           = (Inr (CfResponse True r []), w)"
  using find_by_id [OF assms]
  by (simp add: zone_provider_def get_request_def record_url_inj)

lemma zone_fetch_put:
  "fetch_put (zone_provider cfg)
     (put_request cfg (id' r) (PutBody (type r) (name r) ip (ttl r) (proxied r))) w
     = (Inr (CfResponse True () []),
        w\<lparr>zone := map (\<lambda>x. if id' x = id' r
                            then store (PutBody (type r) (name r) ip (ttl r) (proxied r)) x
                            else x) (zone w)\<rparr>)"
  by (simp add: zone_provider_def put_request_def record_url_inj)

lemma store_own:
  assumes "distinct (map id' rs)" "r \<in> set rs"
  shows "map (\<lambda>x. if id' x = id' r
                  then store (PutBody (type r) (name r) ip (ttl r) (proxied r)) x else x) rs
         = set_content (id' r) ip rs"
  unfolding set_content_def
proof (rule map_cong [OF refl])
  fix x assume "x \<in> set rs"
  with assms have "id' x = id' r \<Longrightarrow> x = r"
    by (meson distinct_map inj_onD)
  then show "(if id' x = id' r
        then store (PutBody (type r) (name r) ip (ttl r) (proxied r)) x else x)
      = (if id' x = id' r then x\<lparr>content := ip\<rparr> else x)"
    by (auto simp: store_def)
qed

lemma set_content_same:
  assumes "distinct (map id' rs)" "r \<in> set rs" "content r = ip"
  shows "set_content (id' r) ip rs = rs"
  unfolding set_content_def
proof (rule map_idI)
  fix x assume "x \<in> set rs"
  with assms have "id' x = id' r \<Longrightarrow> x = r"
    by (meson distinct_map inj_onD)
  with assms(3) show "(if id' x = id' r then x\<lparr>content := ip\<rparr> else x) = x"
    by auto
qed

lemma set_content_ids [simp]: "map id' (set_content rid ip rs) = map id' rs"
  by (simp add: set_content_def)

lemma zone_checkRecord:
  assumes "distinct (map id' (zone (world s)))" "r \<in> set (zone (world s))"
  shows "world (checkRecord cfg (zone_provider cfg) ip r s)
           = (world s)\<lparr>zone := set_content (id' r) ip (zone (world s))\<rparr>"
    and "content r = ip \<Longrightarrow>
         exchanges (checkRecord cfg (zone_provider cfg) ip r s)
           = exchanges s @ [(get_request cfg (id' r), RecordJson (CfResponse True r []))]"
  using assms
  by (simp_all add: checkRecord_def updateDNSRecord_def getDNSRecord_def perform_def
      zone_fetch_record zone_fetch_put store_own set_content_same Let_def)

lemma zone_checkRecords_quiet:
  assumes "distinct (map id' (zone (world s)))" "set rs \<subseteq> set (zone (world s))"
    and "\<forall>r \<in> set rs. content r = ip"
  shows "world (checkRecords cfg (zone_provider cfg) ip rs s) = world s \<and>
     (\<exists>new. exchanges (checkRecords cfg (zone_provider cfg) ip rs s) = exchanges s @ new \<and>
        updates new = [])"
  using assms
proof (induction rs arbitrary: s)
  case Nil
  show ?case by simp
next
  case (Cons r rs)
  let ?s = "checkRecord cfg (zone_provider cfg) ip r s"
  from Cons.prems have r: "r \<in> set (zone (world s))" "content r = ip" by auto
  with Cons.prems(1) have w: "world ?s = world s"
    and e: "exchanges ?s = exchanges s @ [(get_request cfg (id' r), RecordJson (CfResponse True r []))]"
    by (simp_all add: zone_checkRecord set_content_same)
  from Cons.IH [of ?s] Cons.prems w obtain new where
    "world (checkRecords cfg (zone_provider cfg) ip rs ?s) = world s"
    "exchanges (checkRecords cfg (zone_provider cfg) ip rs ?s) = exchanges ?s @ new"
    "updates new = []"
    by auto
  with e show ?case by simp
qed

lemma zone_checkRecords_settles:
  assumes "distinct (map id' (zone (world s)))" "distinct rs" "set rs \<subseteq> set (zone (world s))"
    and "\<forall>x \<in> set (zone (world s)). name x \<in> A \<longrightarrow> content x = ip \<or> x \<in> set rs"
  shows "distinct (map id' (zone (world (checkRecords cfg (zone_provider cfg) ip rs s)))) \<and>
     public_ip (world (checkRecords cfg (zone_provider cfg) ip rs s)) = public_ip (world s) \<and>
     (\<forall>x \<in> set (zone (world (checkRecords cfg (zone_provider cfg) ip rs s))).
        name x \<in> A \<longrightarrow> content x = ip)"
  using assms
proof (induction rs arbitrary: s)
  case Nil
  then show ?case by simp
next
  case (Cons r rs)
  let ?s = "checkRecord cfg (zone_provider cfg) ip r s"
  let ?z = "zone (world s)"
  from Cons.prems have r: "r \<in> set ?z" by simp
  with Cons.prems(1) have w: "world ?s = (world s)\<lparr>zone := set_content (id' r) ip ?z\<rparr>"
    by (rule zone_checkRecord)
  have other: "id' x \<noteq> id' r" if "x \<in> set ?z" "x \<noteq> r" for x
    using that r Cons.prems(1) by (meson distinct_map inj_onD)
  have 1: "distinct (map id' (zone (world ?s)))"
    using Cons.prems(1) by (simp add: w)
  have 2: "distinct rs" using Cons.prems(2) by simp
  have 3: "set rs \<subseteq> set (zone (world ?s))"
  proof
    fix x assume x: "x \<in> set rs"
    with Cons.prems(2,3) have "x \<in> set ?z" "x \<noteq> r" by auto
    with other have "id' x \<noteq> id' r" "x \<in> set ?z" by auto
    then show "x \<in> set (zone (world ?s))"
      by (force simp: w set_content_def)
  qed
  have 4: "\<forall>x \<in> set (zone (world ?s)). name x \<in> A \<longrightarrow> content x = ip \<or> x \<in> set rs"
  proof (intro ballI impI)
    fix y assume "y \<in> set (zone (world ?s))" and A: "name y \<in> A"
    then obtain x where x: "x \<in> set ?z"
      and y: "y = (if id' x = id' r then x\<lparr>content := ip\<rparr> else x)"
      by (auto simp: w set_content_def)
    show "content y = ip \<or> y \<in> set rs"
    proof (cases "id' x = id' r")
      case True
      with y show ?thesis by simp
    next
      case False
      with y have "y = x" "x \<noteq> r" by auto
      with x A Cons.prems(4) show ?thesis by auto
    qed
  qed
  from Cons.IH [OF 1 2 3 4] show ?case
    by (simp add: w)
qed

subsection \<open>The example runs\<close>

lemma zone_example_tick:
  "checkAndUpdateIP example_config (zone_provider example_config) (start example_zone)
     = (Returned,
        \<lparr>world = \<lparr>public_ip = ''2.2.2.2'', zone = [updated_a, record_b]\<rparr>,
         exchanges =
           [(ip_request, IpJson ''2.2.2.2''),
            (list_request example_config, ListJson (ok [record_a, record_b])),
            (get_request example_config ''1'', RecordJson (ok record_a)),
            (get_request example_config ''1'', RecordJson (ok record_a)),
            (put_request example_config ''1'' (PutBody ''A'' ''a.example.com'' ''2.2.2.2'' 300 True),
             PutJson (ok ()))],
         console =
           [LogStarting, LogLookingFor [''a.example.com''], LogCurrentIP ''2.2.2.2'', LogFetching,
            LogFound 1, LogChecking ''a.example.com'' ''A'', LogCurrentDNSIP ''1.1.1.1'',
            LogMismatch, LogUpdated ''a.example.com'' ''2.2.2.2'', LogCompleted],
         timers = []\<rparr>)"
  by (simp add: program_defs example_defs example_zone_def zone_provider_def store_def
      request_defs updated_a_def)

lemma raced_tick:
  "checkAndUpdateIP example_config scripted (start raced_script)
     = (Returned,
        \<lparr>world = [],
         exchanges =
           [(ip_request, IpJson ''2.2.2.2''),
            (list_request example_config, ListJson (ok [record_a, record_b])),
            (get_request example_config ''1'', RecordJson (ok record_a)),
            (get_request example_config ''1'', RecordJson (ok renamed_a)),
            (put_request example_config ''1'' (PutBody ''A'' ''a.example.com'' ''2.2.2.2'' 120 False),
             PutJson (ok ()))],
         console =
           [LogStarting, LogLookingFor [''a.example.com''], LogCurrentIP ''2.2.2.2'', LogFetching,
            LogFound 1, LogChecking ''a.example.com'' ''A'', LogCurrentDNSIP ''1.1.1.1'',
            LogMismatch, LogUpdated ''a.example.com'' ''2.2.2.2'', LogCompleted],
         timers = []\<rparr>)"
  by (simp add: program_defs example_defs raced_script_def renamed_a_def)

lemma refetch_fails_tick:
  "checkAndUpdateIP example_config scripted (start refetch_fails_script)
     = (Returned,
        \<lparr>world = [],
         exchanges =
           [(ip_request, IpJson ''2.2.2.2''),
            (list_request example_config, ListJson (ok [record_a, record_b])),
            (get_request example_config ''1'', RecordJson (ok record_a)),
            (get_request example_config ''1'', RecordJson (refused record_a))],
         console =
           [LogStarting, LogLookingFor [''a.example.com''], LogCurrentIP ''2.2.2.2'', LogFetching,
            LogFound 1, LogChecking ''a.example.com'' ''A'', LogCurrentDNSIP ''1.1.1.1'',
            LogMismatch,
            ErrRecord ''a.example.com'' (JsError ''Error'' ''Failed to get DNS record: [1001]''),
            LogCompleted],
         timers = []\<rparr>)"
  by (simp add: program_defs example_defs refetch_fails_script_def)

lemma refetch_rejected_tick:
  "checkAndUpdateIP example_config scripted (start refetch_rejected_script)
     = (Returned,
        \<lparr>world = [],
         exchanges =
           [(ip_request, IpJson ''2.2.2.2''),
            (list_request example_config, ListJson (ok [record_a, record_b])),
            (get_request example_config ''1'', RecordJson (ok record_a)),
            (get_request example_config ''1'', Failed net_down)],
         console =
           [LogStarting, LogLookingFor [''a.example.com''], LogCurrentIP ''2.2.2.2'', LogFetching,
            LogFound 1, LogChecking ''a.example.com'' ''A'', LogCurrentDNSIP ''1.1.1.1'',
            LogMismatch, ErrRecord ''a.example.com'' net_down, LogCompleted],
         timers = []\<rparr>)"
  by (simp add: program_defs example_defs refetch_rejected_script_def)

lemma isolation_tick:
  "checkAndUpdateIP both_config scripted (start isolation_script)
     = (Returned,
        \<lparr>world = [],
         exchanges =
           [(ip_request, IpJson ''2.2.2.2''),
            (list_request both_config, ListJson (ok [record_a, record_b])),
            (get_request both_config ''1'', RecordJson (refused record_a)),
            (get_request both_config ''2'', RecordJson (ok record_b)),
            (get_request both_config ''2'', RecordJson (ok record_b)),
            (put_request both_config ''2'' (PutBody ''A'' ''b.example.com'' ''2.2.2.2'' 1 False),
             PutJson (ok ()))],
         console =
           [LogStarting, LogLookingFor [''a.example.com'', ''b.example.com''],
            LogCurrentIP ''2.2.2.2'', LogFetching, LogFound 2,
            LogChecking ''a.example.com'' ''A'',
            ErrRecord ''a.example.com'' (JsError ''Error'' ''Failed to get DNS record: [1001]''),
            LogChecking ''b.example.com'' ''A'', LogCurrentDNSIP ''1.1.1.1'',
            LogMismatch, LogUpdated ''b.example.com'' ''2.2.2.2'', LogCompleted],
         timers = []\<rparr>)"
  by (simp add: program_defs example_defs both_config_def isolation_script_def)

lemma reordered_tick:
  "checkAndUpdateIP reordered_config scripted (start isolation_script)
     = (Returned,
        \<lparr>world = [],
         exchanges =
           [(ip_request, IpJson ''2.2.2.2''),
            (list_request reordered_config, ListJson (ok [record_a, record_b])),
            (get_request reordered_config ''1'', RecordJson (refused record_a)),
            (get_request reordered_config ''2'', RecordJson (ok record_b)),
            (get_request reordered_config ''2'', RecordJson (ok record_b)),
            (put_request reordered_config ''2'' (PutBody ''A'' ''b.example.com'' ''2.2.2.2'' 1 False),
             PutJson (ok ()))],
         console =
           [LogStarting, LogLookingFor [''b.example.com'', ''a.example.com''],
            LogCurrentIP ''2.2.2.2'', LogFetching, LogFound 2,
            LogChecking ''a.example.com'' ''A'',
            ErrRecord ''a.example.com'' (JsError ''Error'' ''Failed to get DNS record: [1001]''),
            LogChecking ''b.example.com'' ''A'', LogCurrentDNSIP ''1.1.1.1'',
            LogMismatch, LogUpdated ''b.example.com'' ''2.2.2.2'', LogCompleted],
         timers = []\<rparr>)"
  by (simp add: program_defs example_defs reordered_config_def isolation_script_def)

lemma second_tick_start_eq:
  "second_tick_start =
     \<lparr>world = [IpJson ''2.2.2.2'', ListJson (ok [updated_a, record_b]), RecordJson (ok updated_a)],
      exchanges =
        [(ip_request, IpJson ''2.2.2.2''),
         (list_request example_config, ListJson (ok [record_a, record_b])),
         (get_request example_config ''1'', RecordJson (ok record_a)),
         (get_request example_config ''1'', RecordJson (ok record_a)),
         (put_request example_config ''1'' (PutBody ''A'' ''a.example.com'' ''2.2.2.2'' 300 True),
          PutJson (ok ()))],
      console =
        [LogStarting, LogLookingFor [''a.example.com''], LogCurrentIP ''2.2.2.2'', LogFetching,
         LogFound 1, LogChecking ''a.example.com'' ''A'', LogCurrentDNSIP ''1.1.1.1'',
         LogMismatch, LogUpdated ''a.example.com'' ''2.2.2.2'', LogCompleted,
         LogNextCheck (Num 300000), LogSeparator],
      timers = [Num 300000]\<rparr>"
  by (simp add: second_tick_start_def sleep_def program_defs example_defs two_tick_script_def
      example_script_def updated_a_def)

lemma second_tick:
  "checkAndUpdateIP example_config scripted second_tick_start
     = (Returned,
        \<lparr>world = [],
         exchanges = exchanges second_tick_start @
           [(ip_request, IpJson ''2.2.2.2''),
            (list_request example_config, ListJson (ok [updated_a, record_b])),
            (get_request example_config ''1'', RecordJson (ok updated_a))],
         console = console second_tick_start @
           [LogStarting, LogLookingFor [''a.example.com''], LogCurrentIP ''2.2.2.2'', LogFetching,
            LogFound 1, LogChecking ''a.example.com'' ''A'', LogCurrentDNSIP ''2.2.2.2'',
            LogUpToDate, LogCompleted],
         timers = [Num 300000]\<rparr>)"
  unfolding second_tick_start_eq
  by (simp add: program_defs example_defs updated_a_def)

section \<open>Updating a record\<close>

text \<open>
  C1 (as amended). Take a tick whose lookup gave \<open>ip\<close> and whose listing succeeded,
  the matched records having distinct identifiers, and a matched record \<open>r\<close> whose
  first fetch reports a content different from \<open>ip\<close>. Then the second fetch of
  \<open>r\<close>, the one inside the update, is issued, and the update calls of the tick to
  \<open>r\<close> are what follows it: nothing when the second fetch fails (a rejected request
  or \<^verbatim>\<open>success: false\<close>), and otherwise exactly one PUT, whose body has \<open>content\<close>
  set to \<open>ip\<close> and \<open>ttl\<close> and \<open>proxied\<close> as the second fetch returned them. The
  claim as it stood, one update call for every such record, fails where the second
  fetch fails, which is the counterexample.
\<close>

theorem update_after_mismatch:
  assumes "checkAndUpdateIP cfg nt st = (out, st')"
    and "exchanges st' = exchanges st @ (q0, IpJson ip) # (q1, ListJson data) # rest"
    and "success data"
    and "distinct (map id' (filterAllowed cfg (result data)))"
    and "r \<in> set (filterAllowed cfg (result data))"
    and "calls_to cfg (id' r) rest = (g1, RecordJson d1) # others"
    and "success d1" and "content (result d1) \<noteq> ip"
  shows "\<exists>a2 tail.
           calls_to cfg (id' r) rest =
             (get_request cfg (id' r), RecordJson d1) # (get_request cfg (id' r), a2) # tail
         \<and> updates (calls_to cfg (id' r) rest) = tail
         \<and> (case get_failure a2 of
              Some e \<Rightarrow> tail = []
            | None \<Rightarrow>
                (\<exists>d2 a3. a2 = RecordJson d2 \<and> success d2 \<and>
                   tail = [(put_request cfg (id' r)
                              (PutBody (type r) (name r) ip (ttl (result d2))
                                 (proxied (result d2))), a3)]))"
proof -
  from tick_record_calls [OF assms(1-5)] obtain logs where
    "record_run cfg ip r (calls_to cfg (id' r) rest) logs" ..
  then show ?thesis
    using assms(6-8) by cases auto
qed

theorem update_after_mismatch_witness:
  "calls_to example_config (id' record_a)
     (drop 2 (exchanges (snd (checkAndUpdateIP example_config scripted (start raced_script)))))
     = [(get_request example_config ''1'', RecordJson (ok record_a)),
        (get_request example_config ''1'', RecordJson (ok renamed_a)),
        (put_request example_config ''1'' (PutBody ''A'' ''a.example.com'' ''2.2.2.2'' 120 False),
         PutJson (ok ()))]
   \<and> ttl renamed_a = 120 \<and> proxied renamed_a = False
   \<and> ttl record_a = 300 \<and> proxied record_a = True
   \<and> calls_to example_config (id' record_a)
     (drop 2 (exchanges (snd (checkAndUpdateIP example_config scripted
                                (start refetch_rejected_script)))))
     = [(get_request example_config ''1'', RecordJson (ok record_a)),
        (get_request example_config ''1'', Failed net_down)]
   \<and> updates (calls_to example_config (id' record_a)
     (drop 2 (exchanges (snd (checkAndUpdateIP example_config scripted
                                (start refetch_rejected_script)))))) = []"
proof -
  let ?tick = "checkAndUpdateIP example_config scripted (start raced_script)"
  let ?put = "(put_request example_config ''1''
      (PutBody ''A'' ''a.example.com'' ''2.2.2.2'' 120 False), PutJson (ok ()))"
  let ?rest = "[(get_request example_config ''1'', RecordJson (ok record_a)),
        (get_request example_config ''1'', RecordJson (ok renamed_a)), ?put]"
  let ?tick' = "checkAndUpdateIP example_config scripted (start refetch_rejected_script)"
  let ?rest' = "[(get_request example_config ''1'', RecordJson (ok record_a)),
        (get_request example_config ''1'', Failed net_down)]"
  have tick: "?tick = (fst ?tick, snd ?tick)" and tick': "?tick' = (fst ?tick', snd ?tick')"
    by simp_all
  have trace: "exchanges (snd ?tick) = exchanges (start raced_script) @
      (ip_request, IpJson ''2.2.2.2'') #
      (list_request example_config, ListJson (ok [record_a, record_b])) # ?rest"
    unfolding raced_tick by (simp add: start_def)
  have trace': "exchanges (snd ?tick') = exchanges (start refetch_rejected_script) @
      (ip_request, IpJson ''2.2.2.2'') #
      (list_request example_config, ListJson (ok [record_a, record_b])) # ?rest'"
    unfolding refetch_rejected_tick by (simp add: start_def)
  have listed: "success (ok [record_a, record_b])" by (simp add: ok_def)
  have matched: "filterAllowed example_config (result (ok [record_a, record_b])) = [record_a]"
    by (simp add: filterAllowed_def example_defs)
  have ids: "distinct (map id' (filterAllowed example_config (result (ok [record_a, record_b]))))"
    and mem: "record_a \<in> set (filterAllowed example_config (result (ok [record_a, record_b])))"
    unfolding matched by simp_all
  have calls: "calls_to example_config (id' record_a) ?rest =
      (get_request example_config ''1'', RecordJson (ok record_a)) #
      [(get_request example_config ''1'', RecordJson (ok renamed_a)), ?put]"
    by (simp add: calls_to_def request_defs example_defs)
  have calls': "calls_to example_config (id' record_a) ?rest' =
      (get_request example_config ''1'', RecordJson (ok record_a)) #
      [(get_request example_config ''1'', Failed net_down)]"
    by (simp add: calls_to_def request_defs example_defs)
  have first: "success (ok record_a)" "content (result (ok record_a)) \<noteq> ''2.2.2.2''"
    by (simp_all add: example_defs)
  from update_after_mismatch [OF tick trace listed ids mem calls first]
  have "updates (calls_to example_config (id' record_a) ?rest) = [?put]"
    using calls by auto
  moreover
  from update_after_mismatch [OF tick' trace' listed ids mem calls' first]
  have "updates (calls_to example_config (id' record_a) ?rest') = []"
    using calls' by auto
  moreover have "drop 2 (exchanges (snd ?tick)) = ?rest"
    unfolding raced_tick by simp
  moreover have "drop 2 (exchanges (snd ?tick')) = ?rest'"
    unfolding refetch_rejected_tick by simp
  ultimately show ?thesis
    using calls calls' by (simp add: renamed_a_def record_a_def)
qed

theorem update_issued_once_counterexample:
  "record_a \<in> set (filterAllowed example_config [record_a, record_b])
   \<and> content record_a \<noteq> ''2.2.2.2''
   \<and> exchanges (snd (checkAndUpdateIP example_config scripted (start refetch_fails_script)))
     = [(ip_request, IpJson ''2.2.2.2''),
        (list_request example_config, ListJson (ok [record_a, record_b])),
        (get_request example_config (id' record_a), RecordJson (ok record_a)),
        (get_request example_config (id' record_a), RecordJson (refused record_a))]
   \<and> updates (exchanges (snd (checkAndUpdateIP example_config scripted
                                 (start refetch_fails_script)))) = []"
  unfolding refetch_fails_tick
  by (simp add: filterAllowed_def example_defs updates_def request_defs)

section \<open>Leaving a record alone\<close>

text \<open>
  C2. In a tick whose lookup gave \<open>ip\<close> and whose listing succeeded, a matched
  record whose fetch reports the content \<open>ip\<close> gets that one fetch and no update
  call; and a tick in which no fetch reports a content other than \<open>ip\<close> issues no
  update call at all. So a second tick that finds the address unchanged and the
  records as the first tick left them changes nothing: in the scripted run of two
  ticks the first issues one update, the second none and logs "up to date".
\<close>

theorem no_update_when_equal:
  assumes "checkAndUpdateIP cfg nt st = (out, st')"
    and "exchanges st' = exchanges st @ (q0, IpJson ip) # (q1, ListJson data) # rest"
    and "success data"
  shows "(distinct (map id' (filterAllowed cfg (result data))) \<and>
          r \<in> set (filterAllowed cfg (result data)) \<and>
          calls_to cfg (id' r) rest = (g, RecordJson d) # others \<and>
          success d \<and> content (result d) = ip \<longrightarrow>
            g = get_request cfg (id' r) \<and> others = [] \<and> updates (calls_to cfg (id' r) rest) = [])
       \<and> ((\<forall>x \<in> set rest. \<forall>d. snd x = RecordJson d \<longrightarrow> success d \<longrightarrow> content (result d) = ip) \<longrightarrow>
            updates rest = [])"
proof (intro conjI impI)
  assume a: "distinct (map id' (filterAllowed cfg (result data))) \<and>
          r \<in> set (filterAllowed cfg (result data)) \<and>
          calls_to cfg (id' r) rest = (g, RecordJson d) # others \<and>
          success d \<and> content (result d) = ip"
  with tick_record_calls [OF assms(1-3), of r] obtain logs where
    "record_run cfg ip r (calls_to cfg (id' r) rest) logs" by blast
  then have "g = get_request cfg (id' r) \<and> others = []"
    using a by cases auto
  with a show "g = get_request cfg (id' r)" "others = []"
    "updates (calls_to cfg (id' r) rest) = []"
    by simp_all
next
  assume all: "\<forall>x \<in> set rest. \<forall>d. snd x = RecordJson d \<longrightarrow> success d \<longrightarrow> content (result d) = ip"
  from tick_runs [OF assms(1-3)] obtain runs where runs:
    "runs_of cfg ip (filterAllowed cfg (result data)) runs" "rest = concat (map fst runs)"
    by blast
  have "updates (fst run) = []" if "run \<in> set runs" for run
  proof -
    from runs(1) that obtain r' where "record_run cfg ip r' (fst run) (snd run)"
      by (auto simp: list_all2_conv_all_nth in_set_conv_nth)
    moreover have "\<forall>x \<in> set (fst run). \<forall>d. snd x = RecordJson d \<longrightarrow> success d \<longrightarrow> content (result d) = ip"
      using all runs(2) that by auto
    ultimately show ?thesis
      by cases auto
  qed
  then have "updates (concat (map fst runs)) = []"
    by (induction runs) (simp_all add: updates_append)
  with runs(2) show "updates rest = []" by simp
qed

theorem no_update_when_equal_witness:
  "length (updates (exchanges second_tick_start)) = 1
   \<and> updates (drop (length (exchanges second_tick_start))
        (exchanges (snd (checkAndUpdateIP example_config scripted second_tick_start)))) = []
   \<and> drop (length (console second_tick_start))
        (console (snd (checkAndUpdateIP example_config scripted second_tick_start)))
     = [LogStarting, LogLookingFor [''a.example.com''], LogCurrentIP ''2.2.2.2'', LogFetching,
        LogFound 1, LogChecking ''a.example.com'' ''A'', LogCurrentDNSIP ''2.2.2.2'',
        LogUpToDate, LogCompleted]
   \<and> main_loop 2 example_config scripted (start two_tick_script)
     = Looping (sleep example_config
                 (snd (checkAndUpdateIP example_config scripted second_tick_start)))"
proof -
  let ?tick = "checkAndUpdateIP example_config scripted second_tick_start"
  let ?rest = "[(get_request example_config ''1'', RecordJson (ok updated_a))]"
  have tick: "?tick = (fst ?tick, snd ?tick)" by simp
  have trace: "exchanges (snd ?tick) = exchanges second_tick_start @
      (ip_request, IpJson ''2.2.2.2'') #
      (list_request example_config, ListJson (ok [updated_a, record_b])) # ?rest"
    unfolding second_tick by simp
  have listed: "success (ok [updated_a, record_b])" by (simp add: ok_def)
  have matched: "filterAllowed example_config (result (ok [updated_a, record_b])) = [updated_a]"
    by (simp add: filterAllowed_def example_defs updated_a_def)
  have one: "distinct (map id' (filterAllowed example_config (result (ok [updated_a, record_b]))))
      \<and> updated_a \<in> set (filterAllowed example_config (result (ok [updated_a, record_b])))
      \<and> calls_to example_config (id' updated_a) ?rest
          = (get_request example_config ''1'', RecordJson (ok updated_a)) # []
      \<and> success (ok updated_a) \<and> content (result (ok updated_a)) = ''2.2.2.2''"
    unfolding matched by (simp add: calls_to_def request_defs example_defs updated_a_def)
  have all: "\<forall>x \<in> set ?rest. \<forall>d. snd x = RecordJson d \<longrightarrow> success d \<longrightarrow>
      content (result d) = ''2.2.2.2''"
    by (simp add: ok_def updated_a_def)
  from no_update_when_equal [OF tick trace listed, of updated_a
      "get_request example_config ''1''" "ok updated_a" "[]"] one all
  have none: "updates (calls_to example_config (id' updated_a) ?rest) = []" "updates ?rest = []"
    by blast+
  have "drop (length (exchanges second_tick_start)) (exchanges (snd ?tick))
      = (ip_request, IpJson ''2.2.2.2'') #
        (list_request example_config, ListJson (ok [updated_a, record_b])) # ?rest"
    unfolding second_tick by simp
  with none(2) have second: "updates (drop (length (exchanges second_tick_start))
      (exchanges (snd ?tick))) = []"
    by (simp add: updates_def request_defs)
  have first: "length (updates (exchanges second_tick_start)) = 1"
    unfolding second_tick_start_eq by (simp add: updates_def request_defs)
  have logs: "drop (length (console second_tick_start)) (console (snd ?tick))
     = [LogStarting, LogLookingFor [''a.example.com''], LogCurrentIP ''2.2.2.2'', LogFetching,
        LogFound 1, LogChecking ''a.example.com'' ''A'', LogCurrentDNSIP ''2.2.2.2'',
        LogUpToDate, LogCompleted]"
    unfolding second_tick by simp
  have "fst (checkAndUpdateIP example_config scripted (start two_tick_script)) = Returned"
    by (simp add: program_defs example_defs two_tick_script_def example_script_def
        updated_a_def)
  then have "main_loop (Suc (Suc 0)) example_config scripted (start two_tick_script)
     = main_loop (Suc 0) example_config scripted second_tick_start"
    unfolding second_tick_start_def by (rule main_loop_Returned)
  also have "\<dots> = main_loop 0 example_config scripted (sleep example_config (snd ?tick))"
    by (rule main_loop_Returned) (simp add: second_tick)
  finally have loop: "main_loop 2 example_config scripted (start two_tick_script)
     = Looping (sleep example_config (snd ?tick))"
    by (simp add: numeral_2_eq_2)
  from first second logs loop show ?thesis by simp
qed

text \<open>
  With the provider that keeps a zone the two ticks need no premise on the answers:
  whatever the zone (identifiers distinct) and the allow-list, the first tick leaves
  every matching record with the discovered address as its content, and the second
  tick, run after the sleep, issues no update call.
\<close>

theorem zone_provider_second_tick_quiet:
  assumes "distinct (map id' (zone (world st)))"
    and "st1 = sleep cfg (snd (checkAndUpdateIP cfg (zone_provider cfg) st))"
  shows "fst (checkAndUpdateIP cfg (zone_provider cfg) st) = Returned \<and>
     fst (checkAndUpdateIP cfg (zone_provider cfg) st1) = Returned \<and>
     (\<exists>new. exchanges (snd (checkAndUpdateIP cfg (zone_provider cfg) st1)) = exchanges st1 @ new \<and>
        updates new = [])"
proof -
  let ?N = "zone_provider cfg"
  let ?A = "set (allowedRecords cfg)"
  let ?ip = "public_ip (world st)"
  have flt: "filterAllowed cfg rs = filter (\<lambda>r. name r \<in> ?A) rs" for rs
    by (simp add: filterAllowed_def array_includes_set)
  have tick: "checkAndUpdateIP cfg ?N s =
      (Returned,
       if filterAllowed cfg (zone (world s)) = []
       then log (LogNoMatch (allowedRecords cfg)) (log LogFetching (log (LogCurrentIP (public_ip (world s)))
              ((log (LogLookingFor (allowedRecords cfg)) (log LogStarting s))
                 \<lparr>exchanges := exchanges s @
                    [(ip_request, IpJson (public_ip (world s))),
                     (list_request cfg, ListJson (CfResponse True (zone (world s)) []))]\<rparr>)))
       else log LogCompleted
              (checkRecords cfg ?N (public_ip (world s)) (filterAllowed cfg (zone (world s)))
                 (log (LogFound (length (filterAllowed cfg (zone (world s)))))
                    (log LogFetching (log (LogCurrentIP (public_ip (world s)))
                       ((log (LogLookingFor (allowedRecords cfg)) (log LogStarting s))
                          \<lparr>exchanges := exchanges s @
                             [(ip_request, IpJson (public_ip (world s))),
                              (list_request cfg, ListJson (CfResponse True (zone (world s)) []))]\<rparr>))))))"
    for s
    by (simp add: checkAndUpdateIP_def getCurrentIP_eq getAllDNSRecords_eq Let_def log_def)
  let ?s1 = "snd (checkAndUpdateIP cfg ?N st)"
  have settled: "distinct (map id' (zone (world ?s1))) \<and> public_ip (world ?s1) = ?ip \<and>
      (\<forall>x \<in> set (zone (world ?s1)). name x \<in> ?A \<longrightarrow> content x = ?ip)"
  proof (cases "filterAllowed cfg (zone (world st)) = []")
    case True
    then have "\<forall>x \<in> set (zone (world st)). name x \<notin> ?A"
      by (simp add: flt filter_empty_conv)
    with True assms(1) show ?thesis by (simp add: tick)
  next
    case False
    let ?s0 = "log (LogFound (length (filterAllowed cfg (zone (world st)))))
                    (log LogFetching (log (LogCurrentIP ?ip)
                       ((log (LogLookingFor (allowedRecords cfg)) (log LogStarting st))
                          \<lparr>exchanges := exchanges st @
                             [(ip_request, IpJson ?ip),
                              (list_request cfg, ListJson (CfResponse True (zone (world st)) []))]\<rparr>)))"
    have w0: "world ?s0 = world st" by simp
    have "distinct (zone (world st))"
      using assms(1) by (rule distinct_map [THEN iffD1, THEN conjunct1])
    then have "distinct (filterAllowed cfg (zone (world st)))"
      by (simp add: flt)
    moreover have "set (filterAllowed cfg (zone (world st))) \<subseteq> set (zone (world ?s0))"
      by (auto simp: flt)
    moreover have "\<forall>x \<in> set (zone (world ?s0)). name x \<in> ?A \<longrightarrow>
        content x = ?ip \<or> x \<in> set (filterAllowed cfg (zone (world st)))"
      by (auto simp: flt)
    moreover have "distinct (map id' (zone (world ?s0)))"
      using assms(1) by simp
    ultimately have "distinct (map id' (zone (world
          (checkRecords cfg ?N ?ip (filterAllowed cfg (zone (world st))) ?s0)))) \<and>
      public_ip (world (checkRecords cfg ?N ?ip (filterAllowed cfg (zone (world st))) ?s0))
        = public_ip (world ?s0) \<and>
      (\<forall>x \<in> set (zone (world (checkRecords cfg ?N ?ip (filterAllowed cfg (zone (world st))) ?s0))).
         name x \<in> ?A \<longrightarrow> content x = ?ip)"
      by (intro zone_checkRecords_settles) 
    with False show ?thesis by (simp add: tick)
  qed
  have w1: "world st1 = world ?s1"
    by (simp add: assms(2) sleep_def Let_def)
  let ?rs = "filterAllowed cfg (zone (world st1))"
  let ?t0 = "log (LogFound (length ?rs))
                    (log LogFetching (log (LogCurrentIP (public_ip (world st1)))
                       ((log (LogLookingFor (allowedRecords cfg)) (log LogStarting st1))
                          \<lparr>exchanges := exchanges st1 @
                             [(ip_request, IpJson (public_ip (world st1))),
                              (list_request cfg, ListJson (CfResponse True (zone (world st1)) []))]\<rparr>)))"
  have "\<exists>new. exchanges (snd (checkAndUpdateIP cfg ?N st1)) = exchanges st1 @ new \<and> updates new = []"
  proof (cases "?rs = []")
    case True
    then show ?thesis
      by (simp add: tick updates_def request_defs)
  next
    case False
    have "distinct (map id' (zone (world ?t0)))" "set ?rs \<subseteq> set (zone (world ?t0))"
      "\<forall>r \<in> set ?rs. content r = public_ip (world st1)"
      using settled by (auto simp: w1 flt)
    from zone_checkRecords_quiet [OF this, of cfg] obtain new where
      "exchanges (checkRecords cfg ?N (public_ip (world st1)) ?rs ?t0) = exchanges ?t0 @ new"
      "updates new = []"
      by blast
    with False show ?thesis
      by (simp add: tick updates_def request_defs)
  qed
  then show ?thesis
    by (simp add: tick)
qed

text \<open>
  On the example zone the second tick makes the lookup, the listing and one fetch,
  which finds the content already set.
\<close>

lemma zone_example_second_tick:
  "drop 5 (exchanges (snd (checkAndUpdateIP example_config (zone_provider example_config)
      (sleep example_config
         (snd (checkAndUpdateIP example_config (zone_provider example_config)
                 (start example_zone)))))))
     = [(ip_request, IpJson ''2.2.2.2''),
        (list_request example_config, ListJson (ok [updated_a, record_b])),
        (get_request example_config ''1'', RecordJson (ok updated_a))]"
  unfolding zone_example_tick
  by (simp add: sleep_def program_defs example_defs zone_provider_def request_defs updated_a_def)

section \<open>The filter\<close>

text \<open>
  C3. The filter keeps exactly the listed records whose name is equal, as a string, to
  an entry of the allow-list, in the order of the listing; there is no wildcard
  expansion. In the example of the specification (allow-list \<^verbatim>\<open>["a.example.com"]\<close>,
  records \<^verbatim>\<open>a.example.com\<close> and \<^verbatim>\<open>b.example.com\<close> both with content
  \<^verbatim>\<open>1.1.1.1\<close>, discovered address \<^verbatim>\<open>2.2.2.2\<close>), run on the provider that
  keeps a zone, the tick issues exactly one update call, for \<^verbatim>\<open>a.example.com\<close>, and
  no call at all for \<^verbatim>\<open>b.example.com\<close>, whose record stays as it was.
\<close>

theorem filter_exact_names:
  "filterAllowed cfg allRecords
     = filter (\<lambda>record. name record \<in> set (allowedRecords cfg)) allRecords
   \<and> filterAllowed example_config [record_a, record_b] = [record_a]
   \<and> updates (exchanges (snd (checkAndUpdateIP example_config (zone_provider example_config)
                                 (start example_zone))))
     = [(put_request example_config (id' record_a)
           (PutBody ''A'' ''a.example.com'' ''2.2.2.2'' 300 True), PutJson (ok ()))]
   \<and> calls_to example_config (id' record_b)
       (exchanges (snd (checkAndUpdateIP example_config (zone_provider example_config)
                          (start example_zone)))) = []
   \<and> zone (world (snd (checkAndUpdateIP example_config (zone_provider example_config)
                          (start example_zone)))) = [updated_a, record_b]"
proof -
  have "filterAllowed cfg allRecords
     = filter (\<lambda>record. name record \<in> set (allowedRecords cfg)) allRecords"
    by (simp add: filterAllowed_def array_includes_set)
  moreover have "filterAllowed example_config [record_a, record_b] = [record_a]"
    by (simp add: filterAllowed_def example_defs)
  moreover have "updates (exchanges (snd (checkAndUpdateIP example_config
        (zone_provider example_config) (start example_zone))))
     = [(put_request example_config (id' record_a)
           (PutBody ''A'' ''a.example.com'' ''2.2.2.2'' 300 True), PutJson (ok ()))]"
    unfolding zone_example_tick by (simp add: updates_def request_defs record_a_def)
  moreover have "calls_to example_config (id' record_b)
       (exchanges (snd (checkAndUpdateIP example_config (zone_provider example_config)
                          (start example_zone)))) = []"
    unfolding zone_example_tick
    by (simp add: calls_to_def request_defs record_b_def example_config_def)
  moreover have "zone (world (snd (checkAndUpdateIP example_config
        (zone_provider example_config) (start example_zone)))) = [updated_a, record_b]"
    unfolding zone_example_tick by simp
  ultimately show ?thesis by blast
qed

theorem filter_exact_names_witness:
  "filterAllowed (example_config\<lparr>allowedRecords := [''*.example.com'']\<rparr>)
     [record_a, wildcard_record, record_b] = [wildcard_record]"
  using filter_exact_names [of "example_config\<lparr>allowedRecords := [''*.example.com'']\<rparr>"
      "[record_a, wildcard_record, record_b]"]
  by (simp add: example_defs wildcard_record_def)

section \<open>A failure for one record\<close>

text \<open>
  C4. Once the lookup and the listing of a tick have succeeded, the tick returns
  normally and the loop goes on to its sleep, whatever the provider answers for the
  single records. The calls and console lines after the listing are, record by record
  in the order of the matched records, one pass for each of them: a pass that fails
  ends with the error logged for that record, and the passes after it take place all
  the same, each with its own outcome.
\<close>

theorem record_failure_is_isolated:
  assumes "checkAndUpdateIP cfg nt st = (out, st')"
    and "exchanges st' = exchanges st @ (q0, IpJson ip) # (q1, ListJson data) # rest"
    and "success data"
  shows "out = Returned \<and> main_loop (Suc n) cfg nt st = main_loop n cfg nt (sleep cfg st') \<and>
     (\<exists>runs. runs_of cfg ip (filterAllowed cfg (result data)) runs \<and>
        rest = concat (map fst runs) \<and>
        (\<exists>pre post. console st' = console st @ pre @ concat (map snd runs) @ post) \<and>
        list_all2 (\<lambda>r run. \<forall>e. call_failure (last (fst run)) = Some e \<longrightarrow>
                     last (snd run) = ErrRecord (name r) e)
          (filterAllowed cfg (result data)) runs)"
proof -
  from tick_runs [OF assms] obtain runs where runs:
    "out = Returned"
    "runs_of cfg ip (filterAllowed cfg (result data)) runs" "rest = concat (map fst runs)"
    "\<exists>pre post. console st' = console st @ pre @ concat (map snd runs) @ post"
    by blast
  have "\<forall>e. call_failure (last seg) = Some e \<longrightarrow> last logs = ErrRecord (name r) e"
    if "record_run cfg ip r seg logs" for r seg logs
    using that by cases (auto simp: get_request_def put_request_def)
  with runs(2) have "list_all2 (\<lambda>r run. \<forall>e. call_failure (last (fst run)) = Some e \<longrightarrow>
                     last (snd run) = ErrRecord (name r) e)
          (filterAllowed cfg (result data)) runs"
    by (rule list_all2_mono) blast
  moreover have "main_loop (Suc n) cfg nt st = main_loop n cfg nt (sleep cfg st')"
    using assms(1) runs(1) by simp
  ultimately show ?thesis using runs by blast
qed

theorem record_failure_is_isolated_witness:
  "fst (checkAndUpdateIP both_config scripted (start isolation_script)) = Returned
   \<and> exchanges (snd (checkAndUpdateIP both_config scripted (start isolation_script)))
     = [(ip_request, IpJson ''2.2.2.2''),
        (list_request both_config, ListJson (ok [record_a, record_b])),
        (get_request both_config ''1'', RecordJson (refused record_a)),
        (get_request both_config ''2'', RecordJson (ok record_b)),
        (get_request both_config ''2'', RecordJson (ok record_b)),
        (put_request both_config ''2'' (PutBody ''A'' ''b.example.com'' ''2.2.2.2'' 1 False),
         PutJson (ok ()))]
   \<and> console (snd (checkAndUpdateIP both_config scripted (start isolation_script)))
     = [LogStarting, LogLookingFor [''a.example.com'', ''b.example.com''],
        LogCurrentIP ''2.2.2.2'', LogFetching, LogFound 2,
        LogChecking ''a.example.com'' ''A'',
        ErrRecord ''a.example.com'' (JsError ''Error'' ''Failed to get DNS record: [1001]''),
        LogChecking ''b.example.com'' ''A'', LogCurrentDNSIP ''1.1.1.1'',
        LogMismatch, LogUpdated ''b.example.com'' ''2.2.2.2'', LogCompleted]"
proof -
  let ?tick = "checkAndUpdateIP both_config scripted (start isolation_script)"
  have tick: "?tick = (fst ?tick, snd ?tick)" by simp
  have trace: "exchanges (snd ?tick) = exchanges (start isolation_script) @
      (ip_request, IpJson ''2.2.2.2'') #
      (list_request both_config, ListJson (ok [record_a, record_b])) #
      [(get_request both_config ''1'', RecordJson (refused record_a)),
       (get_request both_config ''2'', RecordJson (ok record_b)),
       (get_request both_config ''2'', RecordJson (ok record_b)),
       (put_request both_config ''2'' (PutBody ''A'' ''b.example.com'' ''2.2.2.2'' 1 False),
        PutJson (ok ()))]"
    unfolding isolation_tick by (simp add: start_def)
  have listed: "success (ok [record_a, record_b])" by (simp add: ok_def)
  from record_failure_is_isolated [OF tick trace listed]
  have "fst ?tick = Returned" by blast
  then show ?thesis
    unfolding isolation_tick by simp
qed

section \<open>Failures before the loop\<close>

text \<open>
  C5. A failure before the per-record loop ends the process. When the address lookup
  fails, the tick has issued that one request and none to the provider, and the
  process exits with code 1; when the listing fails (a rejected request or
  \<^verbatim>\<open>success: false\<close>), the process exits with code 1 as well, in the same tick.
\<close>

theorem fatal_before_loop:
  "(fetch_ip nt ip_request (world st) = (Inl e, w) \<longrightarrow>
      (\<exists>st'. checkAndUpdateIP cfg nt st = (ProcessExit 1, st') \<and>
             exchanges st' = exchanges st @ [(ip_request, Failed e)] \<and>
             last (console st')
               = ErrFatal (new_Error (''Failed to get current IP: '' @ error_toString e)) \<and>
             is_stderr (last (console st')) \<and>
             main_loop (Suc n) cfg nt st = Exited 1 st'))
   \<and> (fetch_ip nt ip_request (world st) = (Inr ip, w) \<and>
      fetch_list nt (list_request cfg) w = (y, w2) \<and>
      list_failure (case y of Inl e \<Rightarrow> Failed e | Inr d \<Rightarrow> ListJson d) = Some e2 \<longrightarrow>
      (\<exists>st'. checkAndUpdateIP cfg nt st = (ProcessExit 1, st') \<and>
             exchanges st' = exchanges st @
               [(ip_request, IpJson ip),
                (list_request cfg, case y of Inl e \<Rightarrow> Failed e | Inr d \<Rightarrow> ListJson d)] \<and>
             last (console st') = ErrFatal e2 \<and>
             is_stderr (last (console st')) \<and>
             main_loop (Suc n) cfg nt st = Exited 1 st'))"
  by (auto simp: checkAndUpdateIP_def getCurrentIP_eq getAllDNSRecords_eq fatal_def
      split: sum.splits if_splits)

theorem fatal_before_loop_witness:
  "checkAndUpdateIP example_config scripted (start [Failed net_down])
     = (ProcessExit 1,
        \<lparr>world = [], exchanges = [(ip_request, Failed net_down)],
         console = [LogStarting, LogLookingFor [''a.example.com''],
                    ErrFatal (JsError ''Error'' ''Failed to get current IP: TypeError: fetch failed'')],
         timers = []\<rparr>)
   \<and> main_loop 1 example_config scripted (start [Failed net_down])
     = Exited 1 (snd (checkAndUpdateIP example_config scripted (start [Failed net_down])))
   \<and> exchanges (snd (checkAndUpdateIP example_config scripted
                        (start [IpJson ''2.2.2.2'', ListJson (refused [])])))
     = [(ip_request, IpJson ''2.2.2.2''), (list_request example_config, ListJson (refused []))]
   \<and> main_loop 1 example_config scripted (start [IpJson ''2.2.2.2'', ListJson (refused [])])
     = Exited 1 (snd (checkAndUpdateIP example_config scripted
                        (start [IpJson ''2.2.2.2'', ListJson (refused [])])))"
  using fatal_before_loop [where nt = scripted and st = "start [Failed net_down]"
      and e = net_down and w = "[]" and cfg = example_config and n = 0]
    fatal_before_loop [where nt = scripted and st = "start [IpJson ''2.2.2.2'', ListJson (refused [])]"
      and ip = "''2.2.2.2''" and w = "[ListJson (refused [])]" and cfg = example_config and n = 0
      and y = "Inr (refused [])" and ?w2.0 = "[]"
      and ?e2.0 = "new_Error (''Failed to get DNS records: '' @ JSON_stringify [''1001''])"]
  by (auto simp: start_def net_down_def refused_def program_defs example_config_def)

section \<open>No matching record\<close>

text \<open>
  C6. When no listed record matches the allow-list, the tick logs the warning and
  returns without an error: it has issued the lookup and the listing and no request
  for a single record, and the loop goes on to its sleep and the next tick.
\<close>

theorem no_match_returns_early:
  assumes "fetch_ip nt ip_request (world st) = (Inr ip, w)"
    and "fetch_list nt (list_request cfg) w = (Inr data, w2)"
    and "success data"
    and "filterAllowed cfg (result data) = []"
  shows "\<exists>st'. checkAndUpdateIP cfg nt st = (Returned, st') \<and>
           exchanges st' = exchanges st @
             [(ip_request, IpJson ip), (list_request cfg, ListJson data)] \<and>
           console st' = console st @
             [LogStarting, LogLookingFor (allowedRecords cfg), LogCurrentIP ip, LogFetching,
              LogNoMatch (allowedRecords cfg)] \<and>
           main_loop (Suc n) cfg nt st = main_loop n cfg nt (sleep cfg st') \<and>
           timers (sleep cfg st') = timers st @
             [js_times (js_times (checkIntervalMinutes cfg) (Num 60)) (Num 1000)]"
  using assms
  by (simp add: checkAndUpdateIP_def getCurrentIP_eq getAllDNSRecords_eq sleep_def Let_def)

theorem no_match_returns_early_witness:
  "filterAllowed example_config [record_b] = []
   \<and> fst (checkAndUpdateIP example_config scripted
            (start [IpJson ''2.2.2.2'', ListJson (ok [record_b])])) = Returned
   \<and> exchanges (snd (checkAndUpdateIP example_config scripted
                        (start [IpJson ''2.2.2.2'', ListJson (ok [record_b])])))
     = [(ip_request, IpJson ''2.2.2.2''),
        (list_request example_config, ListJson (ok [record_b]))]
   \<and> console (snd (checkAndUpdateIP example_config scripted
                      (start [IpJson ''2.2.2.2'', ListJson (ok [record_b])])))
     = [LogStarting, LogLookingFor [''a.example.com''], LogCurrentIP ''2.2.2.2'',
        LogFetching, LogNoMatch [''a.example.com'']]
   \<and> main_loop 2 example_config scripted (start [IpJson ''2.2.2.2'', ListJson (ok [record_b])])
     = main_loop 1 example_config scripted
         (sleep example_config
            (snd (checkAndUpdateIP example_config scripted
                    (start [IpJson ''2.2.2.2'', ListJson (ok [record_b])]))))"
proof -
  let ?st = "start [IpJson ''2.2.2.2'', ListJson (ok [record_b])]"
  have none: "filterAllowed example_config (result (ok [record_b])) = []"
    by (simp add: filterAllowed_def example_defs)
  have ip: "fetch_ip scripted ip_request (world ?st)
      = (Inr ''2.2.2.2'', [ListJson (ok [record_b])])"
    by (simp add: start_def)
  have list: "fetch_list scripted (list_request example_config) [ListJson (ok [record_b])]
      = (Inr (ok [record_b]), [])"
    by simp
  have yes: "success (ok [record_b])"
    by (simp add: ok_def)
  from no_match_returns_early [OF ip list yes none, of 1]
  obtain st' where
    "checkAndUpdateIP example_config scripted ?st = (Returned, st')"
    "exchanges st' = exchanges ?st @
       [(ip_request, IpJson ''2.2.2.2''), (list_request example_config, ListJson (ok [record_b]))]"
    "console st' = console ?st @
       [LogStarting, LogLookingFor (allowedRecords example_config), LogCurrentIP ''2.2.2.2'',
        LogFetching, LogNoMatch (allowedRecords example_config)]"
    "main_loop (Suc 1) example_config scripted ?st
       = main_loop 1 example_config scripted (sleep example_config st')"
    by blast
  then show ?thesis
    using none by (simp add: start_def ok_def example_config_def numeral_2_eq_2)
qed

section \<open>Listing the zone\<close>

text \<open>
  C7. \<open>getAllDNSRecords\<close> issues exactly one request, to the listing URL with
  \<^verbatim>\<open>per_page=100\<close>, and asks for no further page: on success it returns the
  \<^verbatim>\<open>result\<close> array of that one answer as it is, and when \<^verbatim>\<open>success\<close> is false it
  throws an error whose message carries the provider's \<^verbatim>\<open>errors\<close> payload.
\<close>

theorem getAllDNSRecords_single_page:
  assumes "fetch_list nt (list_request cfg) (world st) = (x, w)"
  shows "url (list_request cfg) =
           ''https://api.cloudflare.com/client/v4/zones/'' @ zoneId cfg @ ''/dns_records?per_page=100''
     \<and> exchanges (snd (getAllDNSRecords cfg nt st)) =
           exchanges st @ [(list_request cfg, case x of Inl e \<Rightarrow> Failed e | Inr d \<Rightarrow> ListJson d)]
     \<and> fst (getAllDNSRecords cfg nt st) =
           (case x of
              Inl e \<Rightarrow> Inl e
            | Inr data \<Rightarrow>
                if success data then Inr (result data)
                else Inl (new_Error (''Failed to get DNS records: ''
                                       @ JSON_stringify (errors data))))"
  using assms by (simp add: getAllDNSRecords_eq list_request_def split: sum.splits)

theorem getAllDNSRecords_single_page_witness:
  "fst (getAllDNSRecords example_config scripted (start [ListJson (refused [])]))
     = Inl (JsError ''Error'' ''Failed to get DNS records: [1001]'')
   \<and> exchanges (snd (getAllDNSRecords example_config scripted (start [ListJson (refused [])])))
     = [(list_request example_config, ListJson (refused []))]
   \<and> fst (getAllDNSRecords example_config scripted (start [ListJson (ok [record_a, record_b])]))
     = Inr [record_a, record_b]"
  using getAllDNSRecords_single_page [of scripted example_config "start [ListJson (refused [])]"
      "Inr (refused [])" "[]"]
    getAllDNSRecords_single_page [of scripted example_config "start [ListJson (ok [record_a, record_b])]"
      "Inr (ok [record_a, record_b])" "[]"]
  by (simp add: start_def refused_def ok_def new_Error_def JSON_stringify_def)

section \<open>The order of the allow-list\<close>

text \<open>
  C8 (as amended). The order of the allow-list matters neither for the matching nor
  for the order of the tick. Two configurations with the same credential and zone
  whose allow-lists have the same entries select the same records, in the order of
  the listing; the loop does the same on them, and the whole tick has the same outcome,
  the same requests in the same order and the same console lines, but for the
  allow-list printed in "Looking for records" and in the no-match warning. The
  counterexample reverses a two-entry allow-list: the record listed first is still
  checked and logged first.
\<close>

theorem allow_list_order_irrelevant:
  assumes "set (allowedRecords cfg') = set (allowedRecords cfg)"
    and "zoneId cfg' = zoneId cfg" and "apiToken cfg' = apiToken cfg"
  shows "filterAllowed cfg' allRecords = filterAllowed cfg allRecords
     \<and> checkRecords cfg' nt ip (filterAllowed cfg' allRecords) st
         = checkRecords cfg nt ip (filterAllowed cfg allRecords) st
     \<and> fst (checkAndUpdateIP cfg' nt st) = fst (checkAndUpdateIP cfg nt st)
     \<and> exchanges (snd (checkAndUpdateIP cfg' nt st)) = exchanges (snd (checkAndUpdateIP cfg nt st))
     \<and> map scrub (console (snd (checkAndUpdateIP cfg' nt st)))
         = map scrub (console (snd (checkAndUpdateIP cfg nt st)))"
proof -
  note ops = same_operations [OF assms(2,3)]
  note flt = filterAllowed_set [OF assms(1)]
  have "same_run (log (LogLookingFor (allowedRecords cfg')) (log LogStarting st))
      (log (LogLookingFor (allowedRecords cfg)) (log LogStarting st))"
    by (simp add: same_run_log same_run_def)
  then obtain x s1 t1 where ip:
    "getCurrentIP nt (log (LogLookingFor (allowedRecords cfg')) (log LogStarting st)) = (x, s1)"
    "getCurrentIP nt (log (LogLookingFor (allowedRecords cfg)) (log LogStarting st)) = (x, t1)"
    "same_run s1 t1"
    by (rule same_run_getCurrentIP)
  have "fst (checkAndUpdateIP cfg' nt st) = fst (checkAndUpdateIP cfg nt st) \<and>
      same_run (snd (checkAndUpdateIP cfg' nt st)) (snd (checkAndUpdateIP cfg nt st))"
  proof (cases x)
    case (Inl e)
    with ip show ?thesis
      by (simp add: checkAndUpdateIP_def fatal_def same_run_log)
  next
    case (Inr currentIP)
    from ip(3) have "same_run (log LogFetching (log (LogCurrentIP currentIP) s1))
        (log LogFetching (log (LogCurrentIP currentIP) t1))"
      by (simp add: same_run_log)
    then obtain y s2 t2 where list:
      "getAllDNSRecords cfg nt (log LogFetching (log (LogCurrentIP currentIP) s1)) = (y, s2)"
      "getAllDNSRecords cfg nt (log LogFetching (log (LogCurrentIP currentIP) t1)) = (y, t2)"
      "same_run s2 t2"
      by (rule same_run_getAllDNSRecords)
    show ?thesis
    proof (cases y)
      case (Inl e)
      with ip Inr list show ?thesis
        by (simp add: checkAndUpdateIP_def fatal_def same_run_log ops)
    next
      case (Inr allRecords)
      show ?thesis
      proof (cases "filterAllowed cfg allRecords = []")
        case True
        with ip \<open>x = Inr currentIP\<close> list Inr show ?thesis
          by (simp add: checkAndUpdateIP_def same_run_log ops flt Let_def)
      next
        case False
        from list(3) have "same_run
            (log LogCompleted (checkRecords cfg nt currentIP (filterAllowed cfg allRecords)
               (log (LogFound (length (filterAllowed cfg allRecords))) s2)))
            (log LogCompleted (checkRecords cfg nt currentIP (filterAllowed cfg allRecords)
               (log (LogFound (length (filterAllowed cfg allRecords))) t2)))"
          by (simp add: same_run_log same_run_checkRecords)
        with False ip \<open>x = Inr currentIP\<close> list Inr show ?thesis
          by (simp add: checkAndUpdateIP_def ops flt Let_def)
      qed
    qed
  qed
  then show ?thesis
    by (simp add: flt ops same_run_def)
qed

theorem allow_list_order_irrelevant_witness:
  "filterAllowed reordered_config [record_b, record_a] = filterAllowed both_config [record_b, record_a]
   \<and> filterAllowed both_config [record_b, record_a] = [record_b, record_a]
   \<and> exchanges (snd (checkAndUpdateIP reordered_config scripted (start isolation_script)))
     = exchanges (snd (checkAndUpdateIP both_config scripted (start isolation_script)))"
proof -
  have "set (allowedRecords reordered_config) = set (allowedRecords both_config)"
    "zoneId reordered_config = zoneId both_config"
    "apiToken reordered_config = apiToken both_config"
    by (auto simp: reordered_config_def both_config_def)
  from allow_list_order_irrelevant [OF this, of "[record_b, record_a]" scripted "''2.2.2.2''"
      "start isolation_script"]
  show ?thesis
    by (simp add: filterAllowed_def both_config_def example_defs)
qed

theorem allow_list_order_counterexample:
  "allowedRecords reordered_config = [''b.example.com'', ''a.example.com'']
   \<and> allowedRecords both_config = [''a.example.com'', ''b.example.com'']
   \<and> filterAllowed reordered_config [record_a, record_b] = [record_a, record_b]
   \<and> filterAllowed both_config [record_a, record_b] = [record_a, record_b]
   \<and> exchanges (snd (checkAndUpdateIP reordered_config scripted (start isolation_script)))
     = exchanges (snd (checkAndUpdateIP both_config scripted (start isolation_script)))
   \<and> drop 2 (console (snd (checkAndUpdateIP reordered_config scripted (start isolation_script))))
     = drop 2 (console (snd (checkAndUpdateIP both_config scripted (start isolation_script))))
   \<and> drop 2 (console (snd (checkAndUpdateIP reordered_config scripted (start isolation_script))))
     = [LogCurrentIP ''2.2.2.2'', LogFetching, LogFound 2,
        LogChecking ''a.example.com'' ''A'',
        ErrRecord ''a.example.com'' (JsError ''Error'' ''Failed to get DNS record: [1001]''),
        LogChecking ''b.example.com'' ''A'', LogCurrentDNSIP ''1.1.1.1'',
        LogMismatch, LogUpdated ''b.example.com'' ''2.2.2.2'', LogCompleted]"
  unfolding reordered_tick isolation_tick
  by (simp add: filterAllowed_def example_defs request_defs reordered_config_def both_config_def)

section \<open>What the update writes back\<close>

text \<open>
  C9. Every update call of a tick to a matched record \<open>r\<close> (identifiers distinct)
  comes right after the two fetches of \<open>r\<close>, and its body has the \<open>type\<close> and
  \<open>name\<close> of \<open>r\<close> as the listing gave them, with \<open>ttl\<close> and \<open>proxied\<close> from the
  second fetch: a name or type changed at the provider since the listing is written
  back as listed. In the witness the second fetch returns another name and type, and
  the PUT carries the listed ones.
\<close>

theorem update_writes_listed_name_and_type:
  assumes "checkAndUpdateIP cfg nt st = (out, st')"
    and "exchanges st' = exchanges st @ (q0, IpJson ip) # (q1, ListJson data) # rest"
    and "success data"
    and "distinct (map id' (filterAllowed cfg (result data)))"
    and "r \<in> set (filterAllowed cfg (result data))"
    and "(q, a) \<in> set (updates (calls_to cfg (id' r) rest))"
  shows "\<exists>d1 d2. calls_to cfg (id' r) rest =
             [(get_request cfg (id' r), RecordJson d1),
              (get_request cfg (id' r), RecordJson d2), (q, a)]
           \<and> url q = record_url cfg (id' r)
           \<and> body q = Some (PutBody (type r) (name r) ip (ttl (result d2)) (proxied (result d2)))"
proof -
  from tick_record_calls [OF assms(1-5)] obtain logs where
    "record_run cfg ip r (calls_to cfg (id' r) rest) logs" ..
  then have "\<exists>d1 d2. calls_to cfg (id' r) rest =
             [(get_request cfg (id' r), RecordJson d1),
              (get_request cfg (id' r), RecordJson d2), (q, a)]
           \<and> q = put_request cfg (id' r)
                 (PutBody (type r) (name r) ip (ttl (result d2)) (proxied (result d2)))"
    using assms(6) by cases auto
  then show ?thesis
    by (auto simp: put_request_def)
qed

theorem update_writes_listed_name_and_type_witness:
  "body (fst (last (exchanges (snd (checkAndUpdateIP example_config scripted
                                       (start raced_script))))))
     = Some (PutBody ''A'' ''a.example.com'' ''2.2.2.2'' 120 False)
   \<and> type record_a = ''A'' \<and> name record_a = ''a.example.com''
   \<and> type renamed_a = ''CNAME'' \<and> name renamed_a = ''renamed.example.com''"
proof -
  let ?tick = "checkAndUpdateIP example_config scripted (start raced_script)"
  let ?put = "(put_request example_config ''1''
      (PutBody ''A'' ''a.example.com'' ''2.2.2.2'' 120 False), PutJson (ok ()))"
  let ?rest = "[(get_request example_config ''1'', RecordJson (ok record_a)),
        (get_request example_config ''1'', RecordJson (ok renamed_a)), ?put]"
  have tick: "?tick = (fst ?tick, snd ?tick)" by simp
  have trace: "exchanges (snd ?tick) = exchanges (start raced_script) @
      (ip_request, IpJson ''2.2.2.2'') #
      (list_request example_config, ListJson (ok [record_a, record_b])) # ?rest"
    unfolding raced_tick by (simp add: start_def)
  have listed: "success (ok [record_a, record_b])" by (simp add: ok_def)
  have matched: "filterAllowed example_config (result (ok [record_a, record_b])) = [record_a]"
    by (simp add: filterAllowed_def example_defs)
  have ids: "distinct (map id' (filterAllowed example_config (result (ok [record_a, record_b]))))"
    and mem: "record_a \<in> set (filterAllowed example_config (result (ok [record_a, record_b])))"
    unfolding matched by simp_all
  have put: "?put \<in> set (updates (calls_to example_config (id' record_a) ?rest))"
    by (simp add: calls_to_def updates_def request_defs example_defs)
  from update_writes_listed_name_and_type [OF tick trace listed ids mem put]
  obtain d2 :: "DNSRecord cf_response" where "body (put_request example_config ''1''
        (PutBody ''A'' ''a.example.com'' ''2.2.2.2'' 120 False))
      = Some (PutBody (type record_a) (name record_a) ''2.2.2.2'' (ttl (result d2))
                (proxied (result d2)))"
    by blast
  then have "body (fst ?put) = Some (PutBody ''A'' ''a.example.com'' ''2.2.2.2'' 120 False)"
    by (simp add: put_request_def)
  moreover have "last (exchanges (snd ?tick)) = ?put"
    unfolding raced_tick by simp
  ultimately show ?thesis
    by (simp add: record_a_def renamed_a_def)
qed

section \<open>Start-up\<close>

text \<open>
  C10. Start-up rejects an empty credential, an empty zone identifier and an empty
  allow-list, each with exit code 1, and nothing else: the interval is never looked
  at. Whatever \<^verbatim>\<open>CHECK_INTERVAL_MINUTES\<close> holds and whatever \<^verbatim>\<open>parseInt\<close> makes of
  it (\<^verbatim>\<open>NaN\<close>, zero, a negative number), the process enters the loop as soon as the three
  required settings are non-empty.
\<close>

theorem startup_ignores_interval:
  assumes "JSON_parse (env_or env ''CLOUDFLARE_ALLOWED_RECORDS'' ''[]'') = Inr records"
  shows "(env_or env ''CLOUDFLARE_API_TOKEN'' [] \<noteq> [] \<and>
          env_or env ''CLOUDFLARE_ZONE_ID'' [] \<noteq> [] \<and> records \<noteq> [] \<longrightarrow>
            (\<exists>cfg. load_config JSON_parse parseInt env = Inr cfg \<and>
               checkIntervalMinutes cfg
                 = parseInt (env_or env ''CHECK_INTERVAL_MINUTES'' ''5'') 10 \<and>
               validate cfg st = (None, st) \<and>
               program JSON_parse parseInt env nt n st
                 = main_loop n cfg nt
                     (log LogPressCtrlC (log (LogRunning (checkIntervalMinutes cfg)) st))))
       \<and> (env_or env ''CLOUDFLARE_API_TOKEN'' [] = [] \<or>
          env_or env ''CLOUDFLARE_ZONE_ID'' [] = [] \<or> records = [] \<longrightarrow>
            (\<exists>st'. program JSON_parse parseInt env nt n st = Exited 1 st'))"
  using assms by (auto simp: program_def load_config_def validate_def)

theorem startup_ignores_interval_witness:
  "example_parseInt (env_or example_env ''CHECK_INTERVAL_MINUTES'' ''5'') 10 = NaN
   \<and> program example_JSON_parse example_parseInt example_env scripted 1
       (start [IpJson ''2.2.2.2'', ListJson (ok [record_b])])
     = Looping
        \<lparr>world = [],
         exchanges = [(ip_request, IpJson ''2.2.2.2''),
                      (list_request example_config, ListJson (ok [record_b]))],
         console = [LogRunning NaN, LogPressCtrlC, LogStarting,
                    LogLookingFor [''a.example.com''], LogCurrentIP ''2.2.2.2'', LogFetching,
                    LogNoMatch [''a.example.com''], LogNextCheck NaN, LogSeparator],
         timers = [NaN]\<rparr>
   \<and> program example_JSON_parse example_parseInt (example_env(''CLOUDFLARE_ZONE_ID'' := None))
       scripted 1 (start [])
     = Exited 1 \<lparr>world = [], exchanges = [], console = [ErrZoneRequired], timers = []\<rparr>"
proof -
  have parse: "example_JSON_parse (env_or example_env ''CLOUDFLARE_ALLOWED_RECORDS'' ''[]'')
      = Inr [''a.example.com'']"
    by (simp add: example_JSON_parse_def env_or_def example_env_def)
  have parse': "example_JSON_parse
      (env_or (example_env(''CLOUDFLARE_ZONE_ID'' := None)) ''CLOUDFLARE_ALLOWED_RECORDS'' ''[]'')
      = Inr [''a.example.com'']"
    by (simp add: example_JSON_parse_def env_or_def example_env_def)
  note used = startup_ignores_interval [where JSON_parse = example_JSON_parse
        and env = example_env and parseInt = example_parseInt and nt = scripted and n = 1
        and st = "start [IpJson ''2.2.2.2'', ListJson (ok [record_b])]", OF parse]
      startup_ignores_interval [where JSON_parse = example_JSON_parse
        and env = "example_env(''CLOUDFLARE_ZONE_ID'' := None)" and parseInt = example_parseInt
        and nt = scripted and n = 1 and st = "start []", OF parse']
  have nan: "example_parseInt (env_or example_env ''CHECK_INTERVAL_MINUTES'' ''5'') 10 = NaN"
    by (simp add: env_or_def example_env_def example_parseInt_def)
  have token: "env_or example_env ''CLOUDFLARE_API_TOKEN'' [] \<noteq> []"
    and zone: "env_or example_env ''CLOUDFLARE_ZONE_ID'' [] \<noteq> []"
    and no_zone: "env_or (example_env(''CLOUDFLARE_ZONE_ID'' := None)) ''CLOUDFLARE_ZONE_ID'' [] = []"
    by (simp_all add: env_or_def example_env_def)
  from used(1) token zone obtain cfg where cfg:
    "load_config example_JSON_parse example_parseInt example_env = Inr cfg"
    "program example_JSON_parse example_parseInt example_env scripted 1
       (start [IpJson ''2.2.2.2'', ListJson (ok [record_b])])
     = main_loop 1 cfg scripted
         (log LogPressCtrlC (log (LogRunning (checkIntervalMinutes cfg))
            (start [IpJson ''2.2.2.2'', ListJson (ok [record_b])])))"
    by auto
  from cfg(1) have "cfg = example_config\<lparr>checkIntervalMinutes := NaN\<rparr>"
    using parse nan
    by (auto simp: load_config_def env_or_def example_env_def example_config_def)
  with cfg(2) have run: "program example_JSON_parse example_parseInt example_env scripted 1
       (start [IpJson ''2.2.2.2'', ListJson (ok [record_b])])
     = Looping
        \<lparr>world = [],
         exchanges = [(ip_request, IpJson ''2.2.2.2''),
                      (list_request example_config, ListJson (ok [record_b]))],
         console = [LogRunning NaN, LogPressCtrlC, LogStarting,
                    LogLookingFor [''a.example.com''], LogCurrentIP ''2.2.2.2'', LogFetching,
                    LogNoMatch [''a.example.com''], LogNextCheck NaN, LogSeparator],
         timers = [NaN]\<rparr>"
    by (simp add: program_defs sleep_def request_defs example_defs)
  from used(2) no_zone obtain st' where
    "program example_JSON_parse example_parseInt (example_env(''CLOUDFLARE_ZONE_ID'' := None))
       scripted 1 (start []) = Exited 1 st'"
    by auto
  then have stop: "program example_JSON_parse example_parseInt
       (example_env(''CLOUDFLARE_ZONE_ID'' := None)) scripted 1 (start [])
     = Exited 1 \<lparr>world = [], exchanges = [], console = [ErrZoneRequired], timers = []\<rparr>"
    using parse'
    by (auto simp: program_def load_config_def validate_def env_or_def example_env_def
        log_def start_def split: if_splits)
  from nan run stop show ?thesis by simp
qed

end
